theory Spec2Isabelle
  imports Complex_Main
begin

section \<open>Python values\<close>

text \<open>
  The values that reach \<^verbatim>\<open>pi_pact.py\<close> from the YAML file, from the command line and
  from keyword arguments. A float is either a finite number, one of the two infinities or
  NaN; arithmetic on floats is never modelled, only the comparisons the source makes, and
  Python compares an \<^verbatim>\<open>int\<close> with a \<^verbatim>\<open>float\<close> by their exact values.
  Dictionaries are association lists in insertion order, with string keys.
\<close>

datatype pyfloat = Fin real | PosInf | NegInf | NaN

datatype pyval =
    PNone
  | PBool bool
  | PInt int
  | PFloat pyfloat
  | PStr string
  | PList "pyval list"
  | PDict "(string \<times> pyval) list"

datatype error =
    TypeError string
  | ValueError string
  | KeyError string
  | AttributeError string
  | IndexError string
  | QueryError string
  | RadioFault string

type_synonym pydict = "(string \<times> pyval) list"

text \<open>Truth value testing, as \<^verbatim>\<open>if kwargs[key]\<close> does it.\<close>

fun truthy :: "pyval \<Rightarrow> bool" where
  "truthy PNone = False"
| "truthy (PBool b) = b"
| "truthy (PInt i) = (i \<noteq> 0)"
| "truthy (PFloat f) = (f \<noteq> Fin 0)"
| "truthy (PStr s) = (s \<noteq> [])"
| "truthy (PList xs) = (xs \<noteq> [])"
| "truthy (PDict d) = (d \<noteq> [])"

text \<open>\<^verbatim>\<open>isinstance(value, int)\<close>: a \<^verbatim>\<open>bool\<close> is an \<^verbatim>\<open>int\<close> in Python.\<close>

fun isinstance_int :: "pyval \<Rightarrow> bool" where
  "isinstance_int (PBool b) = True"
| "isinstance_int (PInt i) = True"
| "isinstance_int v = False"

fun int_val :: "pyval \<Rightarrow> int" where
  "int_val (PBool b) = (if b then 1 else 0)"
| "int_val (PInt i) = i"
| "int_val v = 0"

text \<open>\<^verbatim>\<open>isinstance(value, (float, int))\<close>.\<close>

fun isinstance_float_int :: "pyval \<Rightarrow> bool" where
  "isinstance_float_int (PFloat f) = True"
| "isinstance_float_int v = isinstance_int v"

text \<open>The numeric value of a number, for comparisons.\<close>

fun num_val :: "pyval \<Rightarrow> pyfloat" where
  "num_val (PFloat f) = f"
| "num_val v = Fin (of_int (int_val v))"

text \<open>IEEE comparisons: every comparison with NaN is false.\<close>

fun f_le :: "pyfloat \<Rightarrow> pyfloat \<Rightarrow> bool" where
  "f_le NaN y = False"
| "f_le x NaN = False"
| "f_le NegInf y = True"
| "f_le x PosInf = True"
| "f_le (Fin a) (Fin b) = (a \<le> b)"
| "f_le x y = False"

fun f_lt :: "pyfloat \<Rightarrow> pyfloat \<Rightarrow> bool" where
  "f_lt NaN y = False"
| "f_lt x NaN = False"
| "f_lt PosInf y = False"
| "f_lt x NegInf = False"
| "f_lt (Fin a) (Fin b) = (a < b)"
| "f_lt x y = True"

text \<open>Python's \<^verbatim>\<open>==\<close>: numbers compare by value across \<^verbatim>\<open>bool\<close>, \<^verbatim>\<open>int\<close> and
  \<^verbatim>\<open>float\<close> (NaN is equal to nothing); anything else compares structurally.\<close>

definition py_eq :: "pyval \<Rightarrow> pyval \<Rightarrow> bool" where
  "py_eq a b =
     (if isinstance_float_int a \<and> isinstance_float_int b
      then num_val a \<noteq> NaN \<and> num_val a = num_val b
      else a = b)"

section \<open>Configuration constants\<close>

definition LOG_NAME :: string where
  "LOG_NAME = ''pi_pact.log''"

definition DEFAULT_advertiser :: pydict where
  "DEFAULT_advertiser =
     [(''control_file'', PStr ''advertiser_control''),
      (''timeout'', PNone),
      (''uuid'', PStr ''''),
      (''major'', PInt 1),
      (''minor'', PInt 1),
      (''tx_power'', PInt 1),
      (''interval'', PInt 200)]"

definition DEFAULT_scanner :: pydict where
  "DEFAULT_scanner =
     [(''control_file'', PStr ''scanner_control''),
      (''scan_prefix'', PStr ''pi_pact_scan''),
      (''timeout'', PNone),
      (''revisit'', PInt 1),
      (''filters'', PDict [])]"

definition DEFAULT_logger :: pydict where
  "DEFAULT_logger =
     [(''name'', PStr LOG_NAME),
      (''config'', PDict
        [(''version'', PInt 1),
         (''formatters'', PDict
           [(''full'', PDict [(''format'',
               PStr ''%(asctime)s   %(module)-10s   %(levelname)-8s   %(message)s'')]),
            (''brief'', PDict [(''format'',
               PStr ''%(asctime)s   %(levelname)-8s   %(message)s'')])]),
         (''handlers'', PDict
           [(''console'', PDict
              [(''class'', PStr ''logging.StreamHandler''),
               (''level'', PStr ''INFO''),
               (''formatter'', PStr ''brief'')]),
            (''file'', PDict
              [(''class'', PStr ''logging.handlers.TimedRotatingFileHandler''),
               (''level'', PStr ''DEBUG''),
               (''formatter'', PStr ''full''),
               (''filename'', PStr LOG_NAME),
               (''when'', PStr ''H''),
               (''interval'', PInt 1)])]),
         (''loggers'', PDict
           [(LOG_NAME, PDict
              [(''level'', PStr ''DEBUG''),
               (''handlers'', PList [PStr ''console'', PStr ''file''])])])])]"

definition DEFAULT_CONFIG :: pydict where
  "DEFAULT_CONFIG =
     [(''advertiser'', PDict DEFAULT_advertiser),
      (''scanner'', PDict DEFAULT_scanner),
      (''logger'', PDict DEFAULT_logger)]"

definition CONTROL_INTERVAL :: real where
  "CONTROL_INTERVAL = 1"

definition MAX_TIMEOUT :: int where
  "MAX_TIMEOUT = 600"

definition ID_FILTERS :: "string list" where
  "ID_FILTERS = [''ADDRESS'', ''UUID'', ''MAJOR'', ''MINOR'', ''TX POWER'']"

definition MEASUREMENT_FILTERS :: "string list" where
  "MEASUREMENT_FILTERS = [''TIMESTAMP'', ''RSSI'']"

definition MAJOR_LIMITS :: "int \<times> int" where
  "MAJOR_LIMITS = (1, 65535)"

definition MINOR_LIMITS :: "int \<times> int" where
  "MINOR_LIMITS = (1, 65535)"

definition TX_POWER_LIMITS :: "int \<times> int" where
  "TX_POWER_LIMITS = (-40, 4)"

definition INTERVAL_LIMITS :: "int \<times> int" where
  "INTERVAL_LIMITS = (20, 10000)"

definition ALLOWABLE_FILTERS :: "string list" where
  "ALLOWABLE_FILTERS = ID_FILTERS @ MEASUREMENT_FILTERS"

section \<open>The control file and the controller objects\<close>

text \<open>
  The file system, as far as the program touches it: the content of each path. The
  attribute \<^verbatim>\<open>__control_file_handle\<close> is \<^verbatim>\<open>None\<close>, an open file or a closed file.
\<close>

type_synonym files = "string \<rightharpoonup> string"

datatype handle = HNone | HOpen | HClosed

text \<open>\<^verbatim>\<open>with path.open(mode='w') as f: f.write("0")\<close> creates or truncates the file.\<close>

definition write_zero :: "string \<Rightarrow> files \<Rightarrow> files" where
  "write_zero path fs = fs(path \<mapsto> ''0'')"

text \<open>A write to the control file by another process.\<close>

definition external_write :: "string \<Rightarrow> string \<Rightarrow> files \<Rightarrow> files" where
  "external_write path content fs = fs(path \<mapsto> content)"

text \<open>\<^verbatim>\<open>handle.seek(0); control_flag = handle.read(); control_flag != "0"\<close>. A file
  that was never created reads as empty here; the handle is only ever opened on a file
  that has just been written.\<close>

definition read_control :: "string \<Rightarrow> files \<Rightarrow> string" where
  "read_control path fs = (case fs path of None \<Rightarrow> [] | Some c \<Rightarrow> c)"

definition poll :: "string \<Rightarrow> files \<Rightarrow> bool" where
  "poll path fs = (read_control path fs \<noteq> ''0'')"

record advertiser =
  adv_control_file :: string
  adv_control_file_handle :: handle
  adv_timeout :: pyval
  adv_uuid :: string
  adv_major :: pyval
  adv_minor :: pyval
  adv_tx_power :: pyval
  adv_interval :: pyval

record scanner =
  scn_control_file :: string
  scn_control_file_handle :: handle
  scn_scan_prefix :: string
  scn_timeout :: pyval
  scn_revisit :: pyval
  scn_filters :: pydict

subsection \<open>Validating setters\<close>

text \<open>Each setter returns the value it stores, or the exception it raises.\<close>

definition timeout_setter :: "pyval \<Rightarrow> error + pyval" where
  "timeout_setter v =
     (if v \<noteq> PNone then
        (if \<not> isinstance_float_int v then Inl (TypeError ''timeout'')
         else if f_le (num_val v) (Fin 0) then Inl (ValueError ''timeout'')
         else if f_lt (Fin (of_int MAX_TIMEOUT)) (num_val v) then Inl (ValueError ''timeout'')
         else Inr v)
      else Inr v)"

text \<open>\<^verbatim>\<open>str(uuid1())\<close> is the time-based identifier the environment supplies.\<close>

definition uuid_setter :: "string \<Rightarrow> pyval \<Rightarrow> error + string" where
  "uuid_setter uuid1 v =
     (case v of
        PStr s \<Rightarrow> if s = [] then Inr uuid1 else Inr s
      | _ \<Rightarrow> Inl (TypeError ''uuid''))"

definition major_setter :: "pyval \<Rightarrow> error + pyval" where
  "major_setter v =
     (if \<not> isinstance_int v then Inl (TypeError ''major'')
      else if int_val v < fst MAJOR_LIMITS \<or> int_val v > snd MAJOR_LIMITS
        then Inl (ValueError ''major'')
      else Inr v)"

definition minor_setter :: "pyval \<Rightarrow> error + pyval" where
  "minor_setter v =
     (if \<not> isinstance_int v then Inl (TypeError ''minor'')
      else if int_val v < fst MINOR_LIMITS \<or> int_val v > snd MINOR_LIMITS
        then Inl (ValueError ''minor'')
      else Inr v)"

definition tx_power_setter :: "pyval \<Rightarrow> error + pyval" where
  "tx_power_setter v =
     (if \<not> isinstance_int v then Inl (TypeError ''tx_power'')
      else if int_val v < fst TX_POWER_LIMITS \<or> int_val v > snd TX_POWER_LIMITS
        then Inl (ValueError ''tx_power'')
      else Inr v)"

definition interval_setter :: "pyval \<Rightarrow> error + pyval" where
  "interval_setter v =
     (if \<not> isinstance_int v then Inl (TypeError ''interval'')
      else if int_val v < fst INTERVAL_LIMITS \<or> int_val v > snd INTERVAL_LIMITS
        then Inl (ValueError ''interval'')
      else Inr v)"

definition revisit_setter :: "pyval \<Rightarrow> error + pyval" where
  "revisit_setter v =
     (if \<not> isinstance_int v then Inl (TypeError ''revisit'')
      else if int_val v \<le> 0 then Inl (ValueError ''revisit'')
      else Inr v)"

definition scan_prefix_setter :: "pyval \<Rightarrow> error + string" where
  "scan_prefix_setter v = (case v of PStr s \<Rightarrow> Inr s | _ \<Rightarrow> Inl (TypeError ''scan_prefix''))"

definition filters_setter :: "pyval \<Rightarrow> error + pydict" where
  "filters_setter v =
     (case v of
        PDict d \<Rightarrow>
          if \<not> list_all (\<lambda>key. key \<in> set ALLOWABLE_FILTERS) (map fst d)
          then Inl (KeyError ''filters'')
          else Inr d
      | _ \<Rightarrow> Inl (TypeError ''filters''))"

text \<open>The control-file setter resolves the path (kept as it is here), creates the file,
  makes it accessible to everyone and writes \<^verbatim>\<open>"0"\<close>; the handle attribute becomes
  \<^verbatim>\<open>None\<close>.\<close>

definition control_file_setter :: "pyval \<Rightarrow> files \<Rightarrow> error + (string \<times> files)" where
  "control_file_setter v fs =
     (case v of
        PStr s \<Rightarrow> Inr (s, write_zero s fs)
      | _ \<Rightarrow> Inl (TypeError ''control_file''))"

subsection \<open>Construction and destruction\<close>

text \<open>\<^verbatim>\<open>setattr(self, key, value)\<close> for the keys of the default configuration. An
  exception leaves the files as they are at that moment.\<close>

definition adv_setattr ::
  "string \<Rightarrow> string \<Rightarrow> pyval \<Rightarrow> advertiser \<Rightarrow> files \<Rightarrow> (error + advertiser) \<times> files" where
  "adv_setattr uuid1 key v a fs =
     (if key = ''control_file'' then
        (case control_file_setter v fs of
           Inl e \<Rightarrow> (Inl e, fs)
         | Inr (p, fs') \<Rightarrow>
             (Inr (a\<lparr>adv_control_file := p, adv_control_file_handle := HNone\<rparr>), fs'))
      else if key = ''timeout'' then
        (map_sum id (\<lambda>x. a\<lparr>adv_timeout := x\<rparr>) (timeout_setter v), fs)
      else if key = ''uuid'' then
        (map_sum id (\<lambda>x. a\<lparr>adv_uuid := x\<rparr>) (uuid_setter uuid1 v), fs)
      else if key = ''major'' then
        (map_sum id (\<lambda>x. a\<lparr>adv_major := x\<rparr>) (major_setter v), fs)
      else if key = ''minor'' then
        (map_sum id (\<lambda>x. a\<lparr>adv_minor := x\<rparr>) (minor_setter v), fs)
      else if key = ''tx_power'' then
        (map_sum id (\<lambda>x. a\<lparr>adv_tx_power := x\<rparr>) (tx_power_setter v), fs)
      else if key = ''interval'' then
        (map_sum id (\<lambda>x. a\<lparr>adv_interval := x\<rparr>) (interval_setter v), fs)
      else (Inr a, fs))"

definition scn_setattr ::
  "string \<Rightarrow> pyval \<Rightarrow> scanner \<Rightarrow> files \<Rightarrow> (error + scanner) \<times> files" where
  "scn_setattr key v s fs =
     (if key = ''control_file'' then
        (case control_file_setter v fs of
           Inl e \<Rightarrow> (Inl e, fs)
         | Inr (p, fs') \<Rightarrow>
             (Inr (s\<lparr>scn_control_file := p, scn_control_file_handle := HNone\<rparr>), fs'))
      else if key = ''scan_prefix'' then
        (map_sum id (\<lambda>x. s\<lparr>scn_scan_prefix := x\<rparr>) (scan_prefix_setter v), fs)
      else if key = ''timeout'' then
        (map_sum id (\<lambda>x. s\<lparr>scn_timeout := x\<rparr>) (timeout_setter v), fs)
      else if key = ''revisit'' then
        (map_sum id (\<lambda>x. s\<lparr>scn_revisit := x\<rparr>) (revisit_setter v), fs)
      else if key = ''filters'' then
        (map_sum id (\<lambda>x. s\<lparr>scn_filters := x\<rparr>) (filters_setter v), fs)
      else (Inr s, fs))"

text \<open>The value the constructor passes to \<^verbatim>\<open>setattr\<close> for one key:
  \<^verbatim>\<open>kwargs[key] if key in kwargs and kwargs[key] else value\<close>.\<close>

definition chosen :: "(string \<rightharpoonup> pyval) \<Rightarrow> string \<Rightarrow> pyval \<Rightarrow> pyval" where
  "chosen kwargs key dflt =
     (case kwargs key of
        None \<Rightarrow> dflt
      | Some x \<Rightarrow> if truthy x then x else dflt)"

fun adv_init_loop ::
  "pydict \<Rightarrow> string \<Rightarrow> (string \<rightharpoonup> pyval) \<Rightarrow> advertiser \<Rightarrow> files \<Rightarrow> (error + advertiser) \<times> files"
where
  "adv_init_loop [] uuid1 kwargs a fs = (Inr a, fs)"
| "adv_init_loop ((key, dflt) # rest) uuid1 kwargs a fs =
     (case adv_setattr uuid1 key (chosen kwargs key dflt) a fs of
        (Inl e, fs') \<Rightarrow> (Inl e, fs')
      | (Inr a', fs') \<Rightarrow> adv_init_loop rest uuid1 kwargs a' fs')"

fun scn_init_loop ::
  "pydict \<Rightarrow> (string \<rightharpoonup> pyval) \<Rightarrow> scanner \<Rightarrow> files \<Rightarrow> (error + scanner) \<times> files"
where
  "scn_init_loop [] kwargs s fs = (Inr s, fs)"
| "scn_init_loop ((key, dflt) # rest) kwargs s fs =
     (case scn_setattr key (chosen kwargs key dflt) s fs of
        (Inl e, fs') \<Rightarrow> (Inl e, fs')
      | (Inr s', fs') \<Rightarrow> scn_init_loop rest kwargs s' fs')"

text \<open>An object before its first attribute is set. Every field is assigned by the
  constructor's loop before the constructor returns.\<close>

definition adv_blank :: advertiser where
  "adv_blank = \<lparr>adv_control_file = [], adv_control_file_handle = HNone, adv_timeout = PNone,
     adv_uuid = [], adv_major = PNone, adv_minor = PNone, adv_tx_power = PNone,
     adv_interval = PNone\<rparr>"

definition scn_blank :: scanner where
  "scn_blank = \<lparr>scn_control_file = [], scn_control_file_handle = HNone, scn_scan_prefix = [],
     scn_timeout = PNone, scn_revisit = PNone, scn_filters = []\<rparr>"

text \<open>The constructor's loop runs over \<^verbatim>\<open>DEFAULT_CONFIG['advertiser'].items()\<close> (or
  \<^verbatim>\<open>['scanner']\<close>), a module-level dictionary that other code can assign into; \<open>defaults\<close>
  is the value of that section at the moment the constructor runs.\<close>

definition Advertiser_init ::
  "string \<Rightarrow> pydict \<Rightarrow> (string \<rightharpoonup> pyval) \<Rightarrow> files \<Rightarrow> (error + advertiser) \<times> files" where
  "Advertiser_init uuid1 defaults kwargs fs = adv_init_loop defaults uuid1 kwargs adv_blank fs"

definition Scanner_init ::
  "pydict \<Rightarrow> (string \<rightharpoonup> pyval) \<Rightarrow> files \<Rightarrow> (error + scanner) \<times> files" where
  "Scanner_init defaults kwargs fs = scn_init_loop defaults kwargs scn_blank fs"

text \<open>\<^verbatim>\<open>__del__\<close>: close the handle if there is one, unlink the control file.\<close>

definition Advertiser_del :: "advertiser \<Rightarrow> files \<Rightarrow> advertiser \<times> files" where
  "Advertiser_del a fs =
     ((if adv_control_file_handle a \<noteq> HNone then a\<lparr>adv_control_file_handle := HClosed\<rparr> else a),
      fs(adv_control_file a := None))"

definition Scanner_del :: "scanner \<Rightarrow> files \<Rightarrow> scanner \<times> files" where
  "Scanner_del s fs =
     ((if scn_control_file_handle s \<noteq> HNone then s\<lparr>scn_control_file_handle := HClosed\<rparr> else s),
      fs(scn_control_file s := None))"

section \<open>The advertiser session\<close>

text \<open>
  What the world does during one pass of a control loop: how much the monotonic clock
  advances over the blocking call, and what another process writes to the control file
  meanwhile. The advertiser's blocking call is \<^verbatim>\<open>time.sleep(CONTROL_INTERVAL)\<close>, the
  scanner's is the radio service's scan. A run is driven by the list of passes the world
  provides; a loop that is still running when the list ends has not returned.
\<close>

record cycle =
  dur :: real
  written :: "string option"

datatype 'a outcome = Running | Raised error | Returned 'a

definition world_writes :: "string \<Rightarrow> string option \<Rightarrow> files \<Rightarrow> files" where
  "world_writes path w fs = (case w of None \<Rightarrow> fs | Some c \<Rightarrow> external_write path c fs)"

text \<open>\<^verbatim>\<open>(time.monotonic()-start_time) > timeout\<close>: a float against whatever the
  timeout is; a value that is not a number cannot be ordered with a float.\<close>

definition elapsed_gt :: "real \<Rightarrow> pyval \<Rightarrow> error + bool" where
  "elapsed_gt elapsed timeout =
     (if isinstance_float_int timeout then Inr (f_lt (num_val timeout) (Fin elapsed))
      else Inl (TypeError ''>''))"

fun advertise_loop ::
  "cycle list \<Rightarrow> pyval \<Rightarrow> string \<Rightarrow> real \<Rightarrow> files \<Rightarrow> (error + unit) option \<times> files" where
  "advertise_loop [] timeout path elapsed fs = (None, fs)"
| "advertise_loop (c # cs) timeout path elapsed fs =
     (let elapsed' = elapsed + dur c;
          fs' = world_writes path (written c) fs
      in case (if timeout \<noteq> PNone then elapsed_gt elapsed' timeout else Inr False) of
           Inl e \<Rightarrow> (Some (Inl e), fs')
         | Inr timed_out \<Rightarrow>
             if \<not> timed_out \<and> \<not> poll path fs'
             then advertise_loop cs timeout path elapsed' fs'
             else (Some (Inr ()), fs'))"

record adv_env =
  start_fault :: bool
  stop_fault :: bool
  adv_cycles :: "cycle list"

definition advertise ::
  "adv_env \<Rightarrow> pyval \<Rightarrow> advertiser \<Rightarrow> files \<Rightarrow> unit outcome \<times> advertiser \<times> files" where
  "advertise env timeout_arg a fs =
     (let timeout = (if py_eq timeout_arg (PInt 0) then adv_timeout a else timeout_arg);
          path = adv_control_file a;
          fs1 = write_zero path fs
      in if start_fault env then (Raised (RadioFault ''start_advertising''), a, fs1)
         else
           let a1 = a\<lparr>adv_control_file_handle := HOpen\<rparr>
           in (case advertise_loop (adv_cycles env) timeout path 0 fs1 of
                 (None, fs2) \<Rightarrow> (Running, a1, fs2)
               | (Some (Inl e), fs2) \<Rightarrow> (Raised e, a1, fs2)
               | (Some (Inr u), fs2) \<Rightarrow>
                   if stop_fault env then (Raised (RadioFault ''stop_advertising''), a1, fs2)
                   else (Returned (), a1\<lparr>adv_control_file_handle := HClosed\<rparr>,
                         write_zero path fs2)))"

section \<open>Scan records\<close>

text \<open>
  The radio service's scan returns, for each address heard, the five payload fields. A
  timestamp is the \<^verbatim>\<open>datetime\<close> object that \<^verbatim>\<open>datetime.now()\<close> returns, here the
  microseconds it counts; it is not a number, and the program never computes with it. A
  data frame is its column names and its rows, each row with its index label.
\<close>

datatype datetime = Datetime int

record payload =
  p_uuid :: string
  p_major :: int
  p_minor :: int
  p_tx_power :: int
  p_rssi :: int

type_synonym scan_result = "(string \<times> payload) list"

record advertisement =
  ADDRESS :: string
  TIMESTAMP :: "datetime option"
  UUID :: string
  MAJOR :: int
  MINOR :: int
  TX_POWER :: int
  RSSI :: int

record dataframe =
  df_columns :: "string list"
  df_rows :: "(nat \<times> advertisement) list"

fun zip_longest :: "'a list \<Rightarrow> 'b list \<Rightarrow> ('a option \<times> 'b option) list" where
  "zip_longest [] [] = []"
| "zip_longest (x # xs) [] = (Some x, None) # zip_longest xs []"
| "zip_longest [] (y # ys) = (None, Some y) # zip_longest [] ys"
| "zip_longest (x # xs) (y # ys) = (Some x, Some y) # zip_longest xs ys"

definition make_advertisement :: "datetime option \<Rightarrow> string \<times> payload \<Rightarrow> advertisement" where
  "make_advertisement ts entry =
     \<lparr>ADDRESS = fst entry, TIMESTAMP = ts, UUID = p_uuid (snd entry),
      MAJOR = p_major (snd entry), MINOR = p_minor (snd entry),
      TX_POWER = p_tx_power (snd entry), RSSI = p_rssi (snd entry)\<rparr>"

text \<open>The outer loop of \<^verbatim>\<open>process_scans\<close>; \<^verbatim>\<open>scan.items()\<close> on the \<^verbatim>\<open>None\<close> that
  \<^verbatim>\<open>zip_longest\<close> fills in raises.\<close>

fun collect_advertisements ::
  "(scan_result option \<times> datetime option) list \<Rightarrow> advertisement list
     \<Rightarrow> error + advertisement list" where
  "collect_advertisements [] advertisements = Inr advertisements"
| "collect_advertisements ((None, ts) # rest) advertisements = Inl (AttributeError ''items'')"
| "collect_advertisements ((Some scan, ts) # rest) advertisements =
     collect_advertisements rest (advertisements @ map (make_advertisement ts) scan)"

definition range_index :: "'a list \<Rightarrow> (nat \<times> 'a) list" where
  "range_index xs = zip [0 ..< length xs] xs"

definition COLUMNS :: "string list" where
  "COLUMNS = [''ADDRESS'', ''TIMESTAMP'', ''UUID'', ''MAJOR'', ''MINOR'', ''TX POWER'', ''RSSI'']"

definition process_scans :: "scan_result list \<Rightarrow> datetime list \<Rightarrow> error + dataframe" where
  "process_scans scans timestamps =
     (case collect_advertisements (zip_longest scans timestamps) [] of
        Inl e \<Rightarrow> Inl e
      | Inr advertisements \<Rightarrow>
          Inr \<lparr>df_columns = COLUMNS, df_rows = range_index advertisements\<rparr>)"

subsection \<open>Filtering\<close>

text \<open>
  The filter uses two operations of the data-frame library. \<^verbatim>\<open>column.isin([value])\<close>
  keeps the rows whose cell equals the value. \<^verbatim>\<open>query(text)\<close> evaluates the text
  \<^verbatim>\<open>"{value[0]} <= {key} and {key} <= {value[1]}"\<close>, into which the two bounds are
  printed. Two cases of that evaluation are written out here. When both bounds print as
  numbers and the key is the RSSI column, the rows kept are those whose RSSI lies between
  the bounds, both ends included. When both bounds print as numbers and the key is the
  TIMESTAMP column, the comparison is between a number and a column of \<^verbatim>\<open>datetime\<close>
  values, and it raises as soon as the table holds one. What the library returns for any
  other text (bounds that print as names, strings or lists, other keys) is not determined
  here: it is the parameter \<open>library\<close>, a function of the key, the two bounds and the
  table.
\<close>

type_synonym rows = "(nat \<times> advertisement) list"

type_synonym query_library = "string \<Rightarrow> pyval \<Rightarrow> pyval \<Rightarrow> rows \<Rightarrow> error + rows"

definition cell :: "string \<Rightarrow> advertisement \<Rightarrow> pyval" where
  "cell key r =
     (if key = ''ADDRESS'' then PStr (ADDRESS r)
      else if key = ''UUID'' then PStr (UUID r)
      else if key = ''MAJOR'' then PInt (MAJOR r)
      else if key = ''MINOR'' then PInt (MINOR r)
      else if key = ''TX POWER'' then PInt (TX_POWER r)
      else PNone)"

text \<open>\<^verbatim>\<open>value[0]\<close> and \<^verbatim>\<open>value[1]\<close>.\<close>

definition subscript01 :: "pyval \<Rightarrow> error + (pyval \<times> pyval)" where
  "subscript01 v =
     (case v of
        PList xs \<Rightarrow> (case xs of a # b # rest \<Rightarrow> Inr (a, b) | _ \<Rightarrow> Inl (IndexError ''value''))
      | PStr s \<Rightarrow> (case s of a # b # rest \<Rightarrow> Inr (PStr [a], PStr [b])
                   | _ \<Rightarrow> Inl (IndexError ''value''))
      | PDict d \<Rightarrow> Inl (KeyError ''0'')
      | _ \<Rightarrow> Inl (TypeError ''value''))"

text \<open>A bound that prints as a number: an integer of machine size, or a float other than
  NaN (\<^verbatim>\<open>inf\<close> is a name the query language knows).\<close>

definition numeric_literal :: "pyval \<Rightarrow> bool" where
  "numeric_literal v =
     (case v of
        PInt i \<Rightarrow> - (2 ^ 63) \<le> i \<and> i < 2 ^ 63
      | PFloat f \<Rightarrow> f \<noteq> NaN
      | _ \<Rightarrow> False)"

definition range_query :: "query_library \<Rightarrow> string \<Rightarrow> pyval \<Rightarrow> pyval \<Rightarrow> rows \<Rightarrow> error + rows" where
  "range_query library key lo hi advertisements =
     (if numeric_literal lo \<and> numeric_literal hi \<and> key = ''RSSI''
      then Inr (filter (\<lambda>ir. f_le (num_val lo) (Fin (of_int (RSSI (snd ir))))
                           \<and> f_le (Fin (of_int (RSSI (snd ir)))) (num_val hi))
                  advertisements)
      else if numeric_literal lo \<and> numeric_literal hi \<and> key = ''TIMESTAMP''
              \<and> list_ex (\<lambda>ir. TIMESTAMP (snd ir) \<noteq> None) advertisements
      then Inl (TypeError ''TIMESTAMP'')
      else library key lo hi advertisements)"

fun apply_filters :: "query_library \<Rightarrow> pydict \<Rightarrow> rows \<Rightarrow> error + rows" where
  "apply_filters library [] advertisements = Inr advertisements"
| "apply_filters library ((key, v) # rest) advertisements =
     (if key \<in> set ID_FILTERS
      then apply_filters library rest
             (filter (\<lambda>ir. py_eq (cell key (snd ir)) v) advertisements)
      else case subscript01 v of
             Inl e \<Rightarrow> Inl e
           | Inr (lo, hi) \<Rightarrow>
               (case range_query library key lo hi advertisements of
                  Inl e \<Rightarrow> Inl e
                | Inr kept \<Rightarrow> apply_filters library rest kept))"

text \<open>\<^verbatim>\<open>reset_index(inplace=True, drop=True)\<close>.\<close>

definition reset_index :: "(nat \<times> 'a) list \<Rightarrow> (nat \<times> 'a) list" where
  "reset_index rows = range_index (map snd rows)"

definition filter_advertisements ::
  "query_library \<Rightarrow> scanner \<Rightarrow> dataframe \<Rightarrow> error + dataframe" where
  "filter_advertisements library s advertisements =
     (case apply_filters library (scn_filters s) (df_rows advertisements) of
        Inl e \<Rightarrow> Inl e
      | Inr rows \<Rightarrow> Inr (advertisements\<lparr>df_rows := reset_index rows\<rparr>))"

section \<open>The scanner session\<close>

text \<open>One pass of the scan loop: the wall-clock time at its start, what the blocking
  \<^verbatim>\<open>service.scan(revisit)\<close> returns or raises, and, as for the advertiser, how long the
  pass takes and what is written to the control file while the scan blocks.\<close>

record scan_cycle = cycle +
  stamp :: datetime
  heard :: "error + scan_result"

record loop_state =
  ls_timestamps :: "datetime list"
  ls_scans :: "scan_result list"
  ls_scan_count :: nat
  ls_elapsed :: real

fun scan_loop ::
  "scan_cycle list \<Rightarrow> pyval \<Rightarrow> string \<Rightarrow> loop_state \<Rightarrow> files
     \<Rightarrow> (error + loop_state) option \<times> files" where
  "scan_loop [] timeout path st fs = (None, fs)"
| "scan_loop (c # cs) timeout path st fs =
     (let fs' = world_writes path (written c) fs
      in case heard c of
        Inl e \<Rightarrow> (Some (Inl e), fs')
      | Inr scan \<Rightarrow>
          let st' = \<lparr>ls_timestamps = ls_timestamps st @ [stamp c],
                     ls_scans = ls_scans st @ [scan],
                     ls_scan_count = ls_scan_count st + 1,
                     ls_elapsed = ls_elapsed st + dur c\<rparr>
          in (case (if timeout \<noteq> PNone then elapsed_gt (ls_elapsed st') timeout
                    else Inr False) of
                Inl e \<Rightarrow> (Some (Inl e), fs')
              | Inr timed_out \<Rightarrow>
                  if \<not> timed_out \<and> \<not> poll path fs'
                  then scan_loop cs timeout path st' fs'
                  else (Some (Inr st'), fs')))"

definition loop_start :: loop_state where
  "loop_start = \<lparr>ls_timestamps = [], ls_scans = [], ls_scan_count = 0, ls_elapsed = 0\<rparr>"

text \<open>\<^verbatim>\<open>scan\<close> returns the filtered data frame; the name of the file it was written to is
  returned with it here. \<^verbatim>\<open>now\<close> is the session's start time as the file name prints it,
  and \<open>library\<close> the data-frame library that the filter queries.\<close>

definition scan ::
  "query_library \<Rightarrow> string \<Rightarrow> scan_cycle list \<Rightarrow> string \<Rightarrow> pyval \<Rightarrow> scanner \<Rightarrow> files
     \<Rightarrow> (string \<times> dataframe) outcome \<times> scanner \<times> files" where
  "scan library now cycles scan_prefix_arg timeout_arg s fs =
     (let scan_prefix = (if scan_prefix_arg = [] then scn_scan_prefix s else scan_prefix_arg);
          timeout = (if py_eq timeout_arg (PInt 0) then scn_timeout s else timeout_arg);
          path = scn_control_file s;
          fs1 = write_zero path fs;
          scan_file = scan_prefix @ ''_'' @ now @ ''.csv'';
          s1 = s\<lparr>scn_control_file_handle := HOpen\<rparr>
      in case scan_loop cycles timeout path loop_start fs1 of
           (None, fs2) \<Rightarrow> (Running, s1, fs2)
         | (Some (Inl e), fs2) \<Rightarrow> (Raised e, s1, fs2)
         | (Some (Inr st), fs2) \<Rightarrow>
             let s2 = s1\<lparr>scn_control_file_handle := HClosed\<rparr>;
                 fs3 = write_zero path fs2
             in (case process_scans (ls_scans st) (ls_timestamps st) of
                   Inl e \<Rightarrow> (Raised e, s2, fs3)
                 | Inr advertisements \<Rightarrow>
                     (case filter_advertisements library s2 advertisements of
                        Inl e \<Rightarrow> (Raised e, s2, fs3)
                      | Inr filtered \<Rightarrow> (Returned (scan_file, filtered), s2, fs3))))"

section \<open>Loading the configuration\<close>

record parsed_args =
  arg_advertiser :: bool
  arg_scanner :: bool
  arg_config_yml :: "string option"
  arg_control_file :: "string option"
  arg_scan_prefix :: "string option"
  arg_timeout :: "pyfloat option"
  arg_uuid :: "string option"
  arg_major :: "int option"
  arg_minor :: "int option"
  arg_tx_power :: "int option"
  arg_interval :: "int option"
  arg_revisit :: "int option"

definition opt :: "('a \<Rightarrow> pyval) \<Rightarrow> 'a option \<Rightarrow> pyval" where
  "opt f x = (case x of None \<Rightarrow> PNone | Some y \<Rightarrow> f y)"

text \<open>\<^verbatim>\<open>parsed_args.items()\<close>, in the order the parser declares the arguments.\<close>

definition args_items :: "parsed_args \<Rightarrow> pydict" where
  "args_items pa =
     [(''advertiser'', PBool (arg_advertiser pa)),
      (''scanner'', PBool (arg_scanner pa)),
      (''config_yml'', opt PStr (arg_config_yml pa)),
      (''control_file'', opt PStr (arg_control_file pa)),
      (''scan_prefix'', opt PStr (arg_scan_prefix pa)),
      (''timeout'', opt PFloat (arg_timeout pa)),
      (''uuid'', opt PStr (arg_uuid pa)),
      (''major'', opt PInt (arg_major pa)),
      (''minor'', opt PInt (arg_minor pa)),
      (''tx_power'', opt PInt (arg_tx_power pa)),
      (''interval'', opt PInt (arg_interval pa)),
      (''revisit'', opt PInt (arg_revisit pa))]"

text \<open>Dictionary assignment keeps the position of a key that is already there and
  appends a new one; \<^verbatim>\<open>{**a, **b}\<close> assigns the entries of \<^verbatim>\<open>b\<close> into a copy of \<^verbatim>\<open>a\<close>.\<close>

fun dict_set :: "string \<Rightarrow> pyval \<Rightarrow> pydict \<Rightarrow> pydict" where
  "dict_set k v [] = [(k, v)]"
| "dict_set k v ((k', v') # d) = (if k' = k then (k, v) # d else (k', v') # dict_set k v d)"

definition dict_del :: "string \<Rightarrow> pydict \<Rightarrow> pydict" where
  "dict_del k d = filter (\<lambda>kv. fst kv \<noteq> k) d"

definition dict_merge :: "pydict \<Rightarrow> pydict \<Rightarrow> pydict" where
  "dict_merge a b = fold (\<lambda>kv. dict_set (fst kv) (snd kv)) b a"

text \<open>\<^verbatim>\<open>config[name]\<close> used as a mapping.\<close>

definition section_of :: "pyval \<Rightarrow> string \<Rightarrow> error + pydict" where
  "section_of config name =
     (case config of
        PDict c \<Rightarrow>
          (case map_of c name of
             None \<Rightarrow> Inl (KeyError name)
           | Some sec \<Rightarrow> (case sec of PDict d \<Rightarrow> Inr d | _ \<Rightarrow> Inl (TypeError name)))
      | _ \<Rightarrow> Inl (TypeError ''config''))"

fun apply_overrides :: "pydict \<Rightarrow> pydict \<times> pydict \<Rightarrow> pydict \<times> pydict" where
  "apply_overrides [] sections = sections"
| "apply_overrides ((key, v) # rest) (adv, scn) =
     (if v \<noteq> PNone
      then apply_overrides rest
             (if key \<in> set (map fst adv) then dict_set key v adv else adv,
              if key \<in> set (map fst scn) then dict_set key v scn else scn)
      else apply_overrides rest (adv, scn))"

definition py_len :: "pyval \<Rightarrow> error + nat" where
  "py_len v =
     (case v of
        PList xs \<Rightarrow> Inr (length xs)
      | PStr s \<Rightarrow> Inr (length s)
      | PDict d \<Rightarrow> Inr (length d)
      | _ \<Rightarrow> Inl (TypeError ''len''))"

fun filters_to_remove :: "pydict \<Rightarrow> string list \<Rightarrow> error + string list" where
  "filters_to_remove [] acc = Inr acc"
| "filters_to_remove ((key, v) # rest) acc =
     (if key \<notin> set ALLOWABLE_FILTERS then filters_to_remove rest (acc @ [key])
      else if v = PNone then filters_to_remove rest (acc @ [key])
      else if key \<in> set MEASUREMENT_FILTERS then
        (case py_len v of
           Inl e \<Rightarrow> Inl e
         | Inr n \<Rightarrow> if n \<noteq> 2 then filters_to_remove rest (acc @ [key])
                    else filters_to_remove rest acc)
      else filters_to_remove rest acc)"

definition remove_malformed :: "pydict \<Rightarrow> error + pydict" where
  "remove_malformed scn =
     (case map_of scn ''filters'' of
        None \<Rightarrow> Inl (KeyError ''filters'')
      | Some f \<Rightarrow>
          (case f of
             PNone \<Rightarrow> Inr scn
           | PDict filters \<Rightarrow>
               (case filters_to_remove filters [] of
                  Inl e \<Rightarrow> Inl e
                | Inr ks \<Rightarrow> Inr (dict_set ''filters'' (PDict (fold dict_del ks filters)) scn))
           | _ \<Rightarrow> Inl (AttributeError ''items'')))"

text \<open>\<^verbatim>\<open>yml\<close> is what the YAML loader returns for the file named on the command line; it
  is read only when a file is named.\<close>

definition load_config :: "parsed_args \<Rightarrow> pyval \<Rightarrow> error + pydict" where
  "load_config pa yml =
     (case (if arg_config_yml pa = None
            then Inr (DEFAULT_CONFIG, DEFAULT_advertiser, DEFAULT_scanner)
            else (case section_of yml ''advertiser'' of
                    Inl e \<Rightarrow> Inl e
                  | Inr a \<Rightarrow>
                      (case section_of yml ''scanner'' of
                         Inl e \<Rightarrow> Inl e
                       | Inr s \<Rightarrow>
                           Inr (case yml of PDict c \<Rightarrow> c | _ \<Rightarrow> [],
                                dict_merge DEFAULT_advertiser a,
                                dict_merge DEFAULT_scanner s)))) of
        Inl e \<Rightarrow> Inl e
      | Inr (config, adv, scn) \<Rightarrow>
          (case apply_overrides (args_items pa) (adv, scn) of
             (adv', scn') \<Rightarrow>
               (case remove_malformed scn' of
                  Inl e \<Rightarrow> Inl e
                | Inr scn'' \<Rightarrow>
                    Inr (dict_set ''scanner'' (PDict scn'')
                          (dict_set ''advertiser'' (PDict adv') config)))))"

text \<open>
  Without a configuration file \<^verbatim>\<open>load_config\<close> binds \<^verbatim>\<open>config\<close> to the dictionary
  \<^verbatim>\<open>DEFAULT_CONFIG\<close> itself, so the command-line values it assigns go into the module's
  defaults, and what it returns is the new value of \<^verbatim>\<open>DEFAULT_CONFIG\<close>. With a file the
  two sections are fresh dictionaries and \<^verbatim>\<open>DEFAULT_CONFIG\<close> keeps its built-in value.
\<close>

definition DEFAULT_CONFIG_after :: "parsed_args \<Rightarrow> pyval \<Rightarrow> pydict" where
  "DEFAULT_CONFIG_after pa yml =
     (if arg_config_yml pa = None
      then (case load_config pa yml of Inl e \<Rightarrow> DEFAULT_CONFIG | Inr config \<Rightarrow> config)
      else DEFAULT_CONFIG)"


definition main_Scanner :: "parsed_args \<Rightarrow> pyval \<Rightarrow> files \<Rightarrow> (error + scanner) \<times> files" where
  "main_Scanner pa yml fs =
     (case load_config pa yml of
        Inl e \<Rightarrow> (Inl e, fs)
      | Inr config \<Rightarrow>
          (case map_of config ''logger'' of
             None \<Rightarrow> (Inl (KeyError ''logger''), fs)
           | Some logger \<Rightarrow>
               (case section_of (PDict config) ''scanner'' of
                  Inl e \<Rightarrow> (Inl e, fs)
                | Inr kwargs \<Rightarrow>
                    (case section_of (PDict (DEFAULT_CONFIG_after pa yml)) ''scanner'' of
                       Inl e \<Rightarrow> (Inl e, fs)
                     | Inr defaults \<Rightarrow> Scanner_init defaults (map_of kwargs) fs))))"

section \<open>Notions used to state the properties\<close>

text \<open>The documented type and range of each numeric configuration field.\<close>

definition field_type :: "string \<Rightarrow> pyval \<Rightarrow> bool" where
  "field_type key v = (if key = ''timeout'' then isinstance_float_int v else isinstance_int v)"

definition in_documented_range :: "string \<Rightarrow> pyval \<Rightarrow> bool" where
  "in_documented_range key v =
     (if key = ''major'' then 1 \<le> int_val v \<and> int_val v \<le> 65535
      else if key = ''minor'' then 1 \<le> int_val v \<and> int_val v \<le> 65535
      else if key = ''tx_power'' then -40 \<le> int_val v \<and> int_val v \<le> 4
      else if key = ''interval'' then 20 \<le> int_val v \<and> int_val v \<le> 10000
      else if key = ''revisit'' then 0 < int_val v
      else if key = ''timeout'' then f_lt (Fin 0) (num_val v) \<and> f_le (num_val v) (Fin 600)
      else False)"

text \<open>Reading and replacing a numeric attribute by its name.\<close>

definition adv_attr :: "string \<Rightarrow> advertiser \<Rightarrow> pyval" where
  "adv_attr key a =
     (if key = ''timeout'' then adv_timeout a
      else if key = ''major'' then adv_major a
      else if key = ''minor'' then adv_minor a
      else if key = ''tx_power'' then adv_tx_power a
      else if key = ''interval'' then adv_interval a
      else PNone)"

definition adv_with :: "string \<Rightarrow> pyval \<Rightarrow> advertiser \<Rightarrow> advertiser" where
  "adv_with key v a =
     (if key = ''timeout'' then a\<lparr>adv_timeout := v\<rparr>
      else if key = ''major'' then a\<lparr>adv_major := v\<rparr>
      else if key = ''minor'' then a\<lparr>adv_minor := v\<rparr>
      else if key = ''tx_power'' then a\<lparr>adv_tx_power := v\<rparr>
      else if key = ''interval'' then a\<lparr>adv_interval := v\<rparr>
      else a)"

definition scn_attr :: "string \<Rightarrow> scanner \<Rightarrow> pyval" where
  "scn_attr key s =
     (if key = ''timeout'' then scn_timeout s
      else if key = ''revisit'' then scn_revisit s
      else PNone)"

definition scn_with :: "string \<Rightarrow> pyval \<Rightarrow> scanner \<Rightarrow> scanner" where
  "scn_with key v s =
     (if key = ''timeout'' then s\<lparr>scn_timeout := v\<rparr>
      else if key = ''revisit'' then s\<lparr>scn_revisit := v\<rparr>
      else s)"

text \<open>The timestamp that \<^verbatim>\<open>zip_longest\<close> pairs with cycle \<open>i\<close>, and the rows that cycle
  contributes.\<close>

definition stamp_of :: "datetime list \<Rightarrow> nat \<Rightarrow> datetime option" where
  "stamp_of timestamps i = (if i < length timestamps then Some (timestamps ! i) else None)"

definition cycle_rows :: "scan_result list \<Rightarrow> datetime list \<Rightarrow> nat \<Rightarrow> advertisement list" where
  "cycle_rows scans timestamps i = map (make_advertisement (stamp_of timestamps i)) (scans ! i)"

text \<open>Rows grouped by address, in the specification's words: all rows of one address
  are next to each other.\<close>

definition grouped_by_address :: "advertisement list \<Rightarrow> bool" where
  "grouped_by_address rows = distinct (remdups_adj (map ADDRESS rows))"

text \<open>The filter specification, in the specification's words, on the fields of a record:
  an identity filter holds of a record whose field is the target, an RSSI filter of a
  record whose RSSI lies in the inclusive range between its two bounds.\<close>

definition not_below :: "pyval \<Rightarrow> int \<Rightarrow> bool" where
  "not_below lo x =
     (case lo of
        PInt i \<Rightarrow> i \<le> x
      | PFloat f \<Rightarrow> (case f of Fin a \<Rightarrow> a \<le> of_int x | NegInf \<Rightarrow> True | _ \<Rightarrow> False)
      | _ \<Rightarrow> False)"

definition not_above :: "pyval \<Rightarrow> int \<Rightarrow> bool" where
  "not_above hi x =
     (case hi of
        PInt i \<Rightarrow> x \<le> i
      | PFloat f \<Rightarrow> (case f of Fin a \<Rightarrow> of_int x \<le> a | PosInf \<Rightarrow> True | _ \<Rightarrow> False)
      | _ \<Rightarrow> False)"

definition in_bounds :: "pyval \<Rightarrow> int \<Rightarrow> pyval \<Rightarrow> bool" where
  "in_bounds lo x hi = (not_below lo x \<and> not_above hi x)"

definition satisfies :: "string \<times> pyval \<Rightarrow> advertisement \<Rightarrow> bool" where
  "satisfies f r =
     (if fst f = ''ADDRESS'' then snd f = PStr (ADDRESS r)
      else if fst f = ''UUID'' then snd f = PStr (UUID r)
      else if fst f = ''MAJOR'' then snd f = PInt (MAJOR r)
      else if fst f = ''MINOR'' then snd f = PInt (MINOR r)
      else if fst f = ''TX POWER'' then snd f = PInt (TX_POWER r)
      else if fst f = ''RSSI'' then
        (case snd f of
           PList xs \<Rightarrow> (case xs of [lo, hi] \<Rightarrow> in_bounds lo (RSSI r) hi | _ \<Rightarrow> False)
         | _ \<Rightarrow> False)
      else False)"

text \<open>The filter entries the property is about: an identity filter whose target is a string
  or an integer, or an RSSI filter with exactly two bounds that are numbers.\<close>

definition well_formed_filter :: "string \<times> pyval \<Rightarrow> bool" where
  "well_formed_filter f =
     (if fst f \<in> set ID_FILTERS
      then (case snd f of PStr x \<Rightarrow> True | PInt i \<Rightarrow> True | _ \<Rightarrow> False)
      else fst f = ''RSSI'' \<and>
           (case snd f of
              PList xs \<Rightarrow>
                (case xs of [lo, hi] \<Rightarrow> numeric_literal lo \<and> numeric_literal hi | _ \<Rightarrow> False)
            | _ \<Rightarrow> False))"

text \<open>A library that answers no query. The filters of the examples below never reach
  it.\<close>

definition refuses :: query_library where
  "refuses key lo hi advertisements = Inl (QueryError key)"




text \<open>A scan cycle that takes exactly \<open>r\<close> seconds, during which nothing is written to
  the control file and the radio service does not fail.\<close>

definition undisturbed :: "real \<Rightarrow> scan_cycle \<Rightarrow> bool" where
  "undisturbed r c = (dur c = r \<and> written c = None \<and> \<not> isl (heard c))"

text \<open>Precedence in the specification's words: an override that was given wins, then the
  value in the loaded file, then the built-in default. The file's section is empty when no
  file is named.\<close>

definition file_section :: "parsed_args \<Rightarrow> pyval \<Rightarrow> string \<Rightarrow> pydict" where
  "file_section pa yml name =
     (if arg_config_yml pa = None then []
      else (case section_of yml name of Inl e \<Rightarrow> [] | Inr d \<Rightarrow> d))"

definition file_or_default :: "pydict \<Rightarrow> pydict \<Rightarrow> string \<Rightarrow> pyval option" where
  "file_or_default file dflt key =
     (case map_of file key of Some w \<Rightarrow> Some w | None \<Rightarrow> map_of dflt key)"

definition resolved :: "pydict \<Rightarrow> pydict \<Rightarrow> pydict \<Rightarrow> string \<Rightarrow> pyval option" where
  "resolved overrides file dflt key =
     (case map_of overrides key of
        Some v \<Rightarrow> if v \<noteq> PNone then Some v else file_or_default file dflt key
      | None \<Rightarrow> file_or_default file dflt key)"

text \<open>A malformed filter entry, in the specification's words: an unknown key, a null
  value, or a measurement filter that does not have exactly two bounds.\<close>

definition malformed_filter :: "string \<times> pyval \<Rightarrow> bool" where
  "malformed_filter f =
     (fst f \<notin> set ALLOWABLE_FILTERS \<or> snd f = PNone \<or>
      (fst f \<in> set MEASUREMENT_FILTERS \<and> py_len (snd f) \<noteq> Inr 2))"

section \<open>Construction\<close>

lemma map_sum_id_Inr: "map_sum id f x = Inr y \<longleftrightarrow> (\<exists>z. x = Inr z \<and> y = f z)"
  by (cases x) auto

lemma map_sum_id_Inl: "map_sum id f x = Inl e \<longleftrightarrow> x = Inl e"
  by (cases x) auto


lemma chosen_truthy:
  "truthy v \<Longrightarrow>
   chosen (kw(key \<mapsto> v)) k d = (if k = key then v else chosen (kw(key := None)) k d)"
  by (simp add: chosen_def)



text \<open>The default section always has the same keys in the same order, whatever values
  have been assigned into it.\<close>

lemma adv_defaults_shape:
  assumes "map fst defaults = map fst DEFAULT_advertiser"
  obtains dcf dto duu dma dmi dtx din where
    "defaults = [(''control_file'', dcf), (''timeout'', dto), (''uuid'', duu),
                 (''major'', dma), (''minor'', dmi), (''tx_power'', dtx), (''interval'', din)]"
  using assms by (auto simp: DEFAULT_advertiser_def map_eq_Cons_conv)

lemma scn_defaults_shape:
  assumes "map fst defaults = map fst DEFAULT_scanner"
  obtains dcf dsp dto drv dfl where
    "defaults = [(''control_file'', dcf), (''scan_prefix'', dsp), (''timeout'', dto),
                 (''revisit'', drv), (''filters'', dfl)]"
  using assms by (auto simp: DEFAULT_scanner_def map_eq_Cons_conv)

text \<open>The constructor succeeds exactly when every setter accepts the value chosen for its
  key, and otherwise raises what the first refusing setter raises.\<close>

lemma Advertiser_init_Inr:
  "Advertiser_init u
     [(''control_file'', dcf), (''timeout'', dto), (''uuid'', duu), (''major'', dma),
      (''minor'', dmi), (''tx_power'', dtx), (''interval'', din)] kw fs = (Inr a, fs') \<longleftrightarrow>
   (\<exists>p t uu ma mi tx iv.
      control_file_setter (chosen kw ''control_file'' dcf) fs = Inr (p, fs') \<and>
      timeout_setter (chosen kw ''timeout'' dto) = Inr t \<and>
      uuid_setter u (chosen kw ''uuid'' duu) = Inr uu \<and>
      major_setter (chosen kw ''major'' dma) = Inr ma \<and>
      minor_setter (chosen kw ''minor'' dmi) = Inr mi \<and>
      tx_power_setter (chosen kw ''tx_power'' dtx) = Inr tx \<and>
      interval_setter (chosen kw ''interval'' din) = Inr iv \<and>
      a = \<lparr>adv_control_file = p, adv_control_file_handle = HNone, adv_timeout = t,
            adv_uuid = uu, adv_major = ma, adv_minor = mi, adv_tx_power = tx,
            adv_interval = iv\<rparr>)"
  unfolding Advertiser_init_def adv_blank_def
  by (auto simp: adv_setattr_def map_sum_id_Inr map_sum_id_Inl split: sum.splits prod.splits)

lemma Advertiser_init_Inl:
  "fst (Advertiser_init u
     [(''control_file'', dcf), (''timeout'', dto), (''uuid'', duu), (''major'', dma),
      (''minor'', dmi), (''tx_power'', dtx), (''interval'', din)] kw fs) = Inl e \<longleftrightarrow>
   (case control_file_setter (chosen kw ''control_file'' dcf) fs of
      Inl e' \<Rightarrow> e = e' | Inr _ \<Rightarrow>
   (case timeout_setter (chosen kw ''timeout'' dto) of Inl e' \<Rightarrow> e = e' | Inr _ \<Rightarrow>
   (case uuid_setter u (chosen kw ''uuid'' duu) of Inl e' \<Rightarrow> e = e' | Inr _ \<Rightarrow>
   (case major_setter (chosen kw ''major'' dma) of Inl e' \<Rightarrow> e = e' | Inr _ \<Rightarrow>
   (case minor_setter (chosen kw ''minor'' dmi) of Inl e' \<Rightarrow> e = e' | Inr _ \<Rightarrow>
   (case tx_power_setter (chosen kw ''tx_power'' dtx) of Inl e' \<Rightarrow> e = e' | Inr _ \<Rightarrow>
   (case interval_setter (chosen kw ''interval'' din) of
      Inl e' \<Rightarrow> e = e' | Inr _ \<Rightarrow> False)))))))"
  unfolding Advertiser_init_def adv_blank_def
  by (auto simp: adv_setattr_def map_sum_id_Inr map_sum_id_Inl split: sum.splits prod.splits)

lemma Scanner_init_Inr:
  "Scanner_init
     [(''control_file'', dcf), (''scan_prefix'', dsp), (''timeout'', dto), (''revisit'', drv),
      (''filters'', dfl)] kw fs = (Inr s, fs') \<longleftrightarrow>
   (\<exists>p sp t rv fl.
      control_file_setter (chosen kw ''control_file'' dcf) fs = Inr (p, fs') \<and>
      scan_prefix_setter (chosen kw ''scan_prefix'' dsp) = Inr sp \<and>
      timeout_setter (chosen kw ''timeout'' dto) = Inr t \<and>
      revisit_setter (chosen kw ''revisit'' drv) = Inr rv \<and>
      filters_setter (chosen kw ''filters'' dfl) = Inr fl \<and>
      s = \<lparr>scn_control_file = p, scn_control_file_handle = HNone, scn_scan_prefix = sp,
            scn_timeout = t, scn_revisit = rv, scn_filters = fl\<rparr>)"
  unfolding Scanner_init_def scn_blank_def
  by (auto simp: scn_setattr_def map_sum_id_Inr map_sum_id_Inl split: sum.splits prod.splits)

lemma Scanner_init_Inl:
  "fst (Scanner_init
     [(''control_file'', dcf), (''scan_prefix'', dsp), (''timeout'', dto), (''revisit'', drv),
      (''filters'', dfl)] kw fs) = Inl e \<longleftrightarrow>
   (case control_file_setter (chosen kw ''control_file'' dcf) fs of
      Inl e' \<Rightarrow> e = e' | Inr _ \<Rightarrow>
   (case scan_prefix_setter (chosen kw ''scan_prefix'' dsp) of
      Inl e' \<Rightarrow> e = e' | Inr _ \<Rightarrow>
   (case timeout_setter (chosen kw ''timeout'' dto) of Inl e' \<Rightarrow> e = e' | Inr _ \<Rightarrow>
   (case revisit_setter (chosen kw ''revisit'' drv) of Inl e' \<Rightarrow> e = e' | Inr _ \<Rightarrow>
   (case filters_setter (chosen kw ''filters'' dfl) of
      Inl e' \<Rightarrow> e = e' | Inr _ \<Rightarrow> False)))))"
  unfolding Scanner_init_def scn_blank_def
  by (auto simp: scn_setattr_def map_sum_id_Inr map_sum_id_Inl split: sum.splits prod.splits)

text \<open>On a value of the documented type, each setter stores the value when it is in the
  documented range and raises \<^verbatim>\<open>ValueError\<close> when it is not.\<close>

lemma int_setter_range:
  "isinstance_int v \<Longrightarrow> major_setter v =
     (if in_documented_range ''major'' v then Inr v else Inl (ValueError ''major''))"
  "isinstance_int v \<Longrightarrow> minor_setter v =
     (if in_documented_range ''minor'' v then Inr v else Inl (ValueError ''minor''))"
  "isinstance_int v \<Longrightarrow> tx_power_setter v =
     (if in_documented_range ''tx_power'' v then Inr v else Inl (ValueError ''tx_power''))"
  "isinstance_int v \<Longrightarrow> interval_setter v =
     (if in_documented_range ''interval'' v then Inr v else Inl (ValueError ''interval''))"
  "isinstance_int v \<Longrightarrow> revisit_setter v =
     (if in_documented_range ''revisit'' v then Inr v else Inl (ValueError ''revisit''))"
  by (auto simp: major_setter_def minor_setter_def tx_power_setter_def interval_setter_def
      revisit_setter_def in_documented_range_def MAJOR_LIMITS_def MINOR_LIMITS_def
      TX_POWER_LIMITS_def INTERVAL_LIMITS_def)

lemma f_le_iff_not_lt: "x \<noteq> NaN \<Longrightarrow> y \<noteq> NaN \<Longrightarrow> f_le x y \<longleftrightarrow> \<not> f_lt y x"
  by (cases x; cases y) auto

lemma timeout_setter_range:
  "isinstance_float_int v \<Longrightarrow> num_val v \<noteq> NaN \<Longrightarrow>
   timeout_setter v =
     (if in_documented_range ''timeout'' v then Inr v else Inl (ValueError ''timeout''))"
  by (cases v) (auto simp: timeout_setter_def in_documented_range_def MAX_TIMEOUT_def
      f_le_iff_not_lt)

text \<open>
  Claim C1, as the code has it. Take a configuration field among timeout, major, minor,
  tx_power and interval of the advertiser (timeout and revisit of the scanner), and a
  value of the field's type that Python counts as true (so not zero) and that is not NaN.
  If construction succeeds without the key, then construction with the value given for the
  key succeeds when the value is in the documented range, building the same object with
  that attribute equal to the value supplied; and it raises ValueError for that field when
  the value is outside the range. This holds whatever values the default section holds
  when the constructor runs, the built-in ones included.
\<close>

theorem construction_range_check:
  assumes "field_type key v" and "truthy v" and "num_val v \<noteq> NaN"
  shows "(key \<in> set [''timeout'', ''major'', ''minor'', ''tx_power'', ''interval''] \<and>
          map fst adv_defaults = map fst DEFAULT_advertiser \<and>
          Advertiser_init fresh adv_defaults (kwargs(key := None)) fs = (Inr a, fs') \<longrightarrow>
            (if in_documented_range key v
             then Advertiser_init fresh adv_defaults (kwargs(key \<mapsto> v)) fs
                    = (Inr (adv_with key v a), fs')
                  \<and> adv_attr key (adv_with key v a) = v
             else fst (Advertiser_init fresh adv_defaults (kwargs(key \<mapsto> v)) fs)
                    = Inl (ValueError key)))
       \<and> (key \<in> set [''timeout'', ''revisit''] \<and>
          map fst scn_defaults = map fst DEFAULT_scanner \<and>
          Scanner_init scn_defaults (kwargs(key := None)) fs = (Inr s, fs') \<longrightarrow>
            (if in_documented_range key v
             then Scanner_init scn_defaults (kwargs(key \<mapsto> v)) fs
                    = (Inr (scn_with key v s), fs')
                  \<and> scn_attr key (scn_with key v s) = v
             else fst (Scanner_init scn_defaults (kwargs(key \<mapsto> v)) fs)
                    = Inl (ValueError key)))"
proof (intro conjI impI; elim conjE)
  assume k: "key \<in> set [''timeout'', ''major'', ''minor'', ''tx_power'', ''interval'']"
    and shape: "map fst adv_defaults = map fst DEFAULT_advertiser"
    and ok: "Advertiser_init fresh adv_defaults (kwargs(key := None)) fs = (Inr a, fs')"
  from shape obtain dcf dto duu dma dmi dtx din where d:
    "adv_defaults = [(''control_file'', dcf), (''timeout'', dto), (''uuid'', duu),
                     (''major'', dma), (''minor'', dmi), (''tx_power'', dtx),
                     (''interval'', din)]"
    by (rule adv_defaults_shape)
  from ok assms k
  show "if in_documented_range key v
        then Advertiser_init fresh adv_defaults (kwargs(key \<mapsto> v)) fs
               = (Inr (adv_with key v a), fs')
             \<and> adv_attr key (adv_with key v a) = v
        else fst (Advertiser_init fresh adv_defaults (kwargs(key \<mapsto> v)) fs)
               = Inl (ValueError key)"
    unfolding d
    apply (clarsimp simp only: Advertiser_init_Inr Advertiser_init_Inl chosen_truthy)
    apply (auto simp: int_setter_range timeout_setter_range field_type_def adv_with_def
        adv_attr_def)
    done
next
  assume k: "key \<in> set [''timeout'', ''revisit'']"
    and shape: "map fst scn_defaults = map fst DEFAULT_scanner"
    and ok: "Scanner_init scn_defaults (kwargs(key := None)) fs = (Inr s, fs')"
  from shape obtain dcf dsp dto drv dfl where d:
    "scn_defaults = [(''control_file'', dcf), (''scan_prefix'', dsp), (''timeout'', dto),
                     (''revisit'', drv), (''filters'', dfl)]"
    by (rule scn_defaults_shape)
  from ok assms k
  show "if in_documented_range key v
        then Scanner_init scn_defaults (kwargs(key \<mapsto> v)) fs = (Inr (scn_with key v s), fs')
             \<and> scn_attr key (scn_with key v s) = v
        else fst (Scanner_init scn_defaults (kwargs(key \<mapsto> v)) fs) = Inl (ValueError key)"
    unfolding d
    apply (clarsimp simp only: Scanner_init_Inr Scanner_init_Inl chosen_truthy)
    apply (auto simp: int_setter_range timeout_setter_range field_type_def scn_with_def
        scn_attr_def)
    done
qed

lemmas init_eval =
  Advertiser_init_def Scanner_init_def DEFAULT_advertiser_def DEFAULT_scanner_def
  adv_blank_def scn_blank_def adv_setattr_def scn_setattr_def chosen_def
  control_file_setter_def timeout_setter_def uuid_setter_def major_setter_def
  minor_setter_def tx_power_setter_def interval_setter_def revisit_setter_def
  scan_prefix_setter_def filters_setter_def write_zero_def MAJOR_LIMITS_def
  MINOR_LIMITS_def TX_POWER_LIMITS_def INTERVAL_LIMITS_def MAX_TIMEOUT_def
  ALLOWABLE_FILTERS_def ID_FILTERS_def MEASUREMENT_FILTERS_def

theorem construction_range_check_witness:
  "Advertiser_init ''u'' DEFAULT_advertiser [''major'' \<mapsto> PInt 5] Map.empty =
     (Inr \<lparr>adv_control_file = ''advertiser_control'', adv_control_file_handle = HNone,
           adv_timeout = PNone, adv_uuid = ''u'', adv_major = PInt 5, adv_minor = PInt 1,
           adv_tx_power = PInt 1, adv_interval = PInt 200\<rparr>,
      [''advertiser_control'' \<mapsto> ''0''])
   \<and> fst (Advertiser_init ''u'' DEFAULT_advertiser [''major'' \<mapsto> PInt 65536] Map.empty)
       = Inl (ValueError ''major'')
   \<and> fst (Scanner_init DEFAULT_scanner [''timeout'' \<mapsto> PFloat (Fin 601)] Map.empty)
       = Inl (ValueError ''timeout'')"
proof -
  let ?a = "\<lparr>adv_control_file = ''advertiser_control'', adv_control_file_handle = HNone,
           adv_timeout = PNone, adv_uuid = ''u'', adv_major = PInt 1, adv_minor = PInt 1,
           adv_tx_power = PInt 1, adv_interval = PInt 200\<rparr>"
  let ?s = "\<lparr>scn_control_file = ''scanner_control'', scn_control_file_handle = HNone,
           scn_scan_prefix = ''pi_pact_scan'', scn_timeout = PNone, scn_revisit = PInt 1,
           scn_filters = []\<rparr>"
  have a: "Advertiser_init ''u'' DEFAULT_advertiser (Map.empty(''major'' := None)) Map.empty
             = (Inr ?a, [''advertiser_control'' \<mapsto> ''0''])"
    by (simp add: init_eval)
  have s: "Scanner_init DEFAULT_scanner (Map.empty(''timeout'' := None)) Map.empty
             = (Inr ?s, [''scanner_control'' \<mapsto> ''0''])"
    by (simp add: init_eval)
  have 1: "Advertiser_init ''u'' DEFAULT_advertiser [''major'' \<mapsto> PInt 5] Map.empty
             = (Inr (adv_with ''major'' (PInt 5) ?a), [''advertiser_control'' \<mapsto> ''0''])"
    using construction_range_check [where key = "''major''" and v = "PInt 5"
        and kwargs = Map.empty and fresh = "''u''" and fs = Map.empty and a = ?a
        and adv_defaults = DEFAULT_advertiser
        and fs' = "[''advertiser_control'' \<mapsto> ''0'']"] a
    by (simp add: field_type_def in_documented_range_def)
  have 2: "fst (Advertiser_init ''u'' DEFAULT_advertiser [''major'' \<mapsto> PInt 65536] Map.empty)
             = Inl (ValueError ''major'')"
    using construction_range_check [where key = "''major''" and v = "PInt 65536"
        and kwargs = Map.empty and fresh = "''u''" and fs = Map.empty and a = ?a
        and adv_defaults = DEFAULT_advertiser
        and fs' = "[''advertiser_control'' \<mapsto> ''0'']"] a
    by (simp add: field_type_def in_documented_range_def)
  have 3: "fst (Scanner_init DEFAULT_scanner [''timeout'' \<mapsto> PFloat (Fin 601)] Map.empty)
             = Inl (ValueError ''timeout'')"
    using construction_range_check [where key = "''timeout''" and v = "PFloat (Fin 601)"
        and kwargs = Map.empty and fs = Map.empty and s = ?s
        and scn_defaults = DEFAULT_scanner
        and fs' = "[''scanner_control'' \<mapsto> ''0'']"] s
    by (simp add: field_type_def in_documented_range_def)
  from 1 2 3 show ?thesis by (simp add: adv_with_def)
qed

text \<open>
  Claim C1 as stated fails on values that Python counts as false, and on NaN. With the
  built-in defaults, the major value 0 is outside [1, 65535], yet construction raises
  nothing; the TX power 0 is inside [-40, 4], yet the stored TX power is the default 1; a
  NaN timeout is not in (0, 600], yet it is stored.
\<close>

theorem construction_range_counterexample:
  "\<not> in_documented_range ''major'' (PInt 0)
   \<and> map_sum id adv_major
       (fst (Advertiser_init ''u'' DEFAULT_advertiser [''major'' \<mapsto> PInt 0] Map.empty))
       = Inr (PInt 1)
   \<and> in_documented_range ''tx_power'' (PInt 0)
   \<and> map_sum id adv_tx_power
       (fst (Advertiser_init ''u'' DEFAULT_advertiser [''tx_power'' \<mapsto> PInt 0] Map.empty))
       = Inr (PInt 1)
   \<and> \<not> in_documented_range ''timeout'' (PFloat NaN)
   \<and> map_sum id scn_timeout
       (fst (Scanner_init DEFAULT_scanner [''timeout'' \<mapsto> PFloat NaN] Map.empty))
       = Inr (PFloat NaN)"
  by (simp add: init_eval in_documented_range_def)

section \<open>Falsy keyword arguments\<close>











section \<open>Flattening the scans\<close>

lemma cycle_rows_eq:
  "cycle_rows scans timestamps
     = (\<lambda>i. map (make_advertisement (stamp_of timestamps i)) (scans ! i))"
  by (simp add: fun_eq_iff cycle_rows_def)

lemma collect_all_some:
  "collect_advertisements (map (\<lambda>p. (Some (fst p), snd p)) ps) acc
     = Inr (acc @ concat (map (\<lambda>p. map (make_advertisement (snd p)) (fst p)) ps))"
  by (induction ps arbitrary: acc) auto

lemma zip_longest_Nil2:
  "zip_longest scans []
     = map (\<lambda>p. (Some (fst p), snd p)) (zip scans (replicate (length scans) None))"
  by (induction scans) simp_all

lemma zip_longest_short:
  "length ts \<le> length scans \<Longrightarrow>
   zip_longest scans ts
     = map (\<lambda>p. (Some (fst p), snd p))
         (zip scans (map Some ts @ replicate (length scans - length ts) None))"
proof (induction scans arbitrary: ts)
  case Nil
  then show ?case by simp
next
  case (Cons s scans)
  show ?case
  proof (cases ts)
    case Nil
    then show ?thesis using zip_longest_Nil2 [of "s # scans"] by simp
  next
    case (Cons t ts')
    with Cons.prems have "length ts' \<le> length scans" by simp
    from Cons.IH [OF this] Cons show ?thesis by simp
  qed
qed

lemma zip_padded:
  assumes "length ts \<le> length scans"
  shows "zip scans (map Some ts @ replicate (length scans - length ts) None)
           = map (\<lambda>i. (scans ! i, stamp_of ts i)) [0 ..< length scans]"
  using assms by (intro nth_equalityI) (auto simp: nth_append stamp_of_def)

lemma process_scans_rows:
  assumes "length timestamps \<le> length scans"
  shows "process_scans scans timestamps
           = Inr \<lparr>df_columns = COLUMNS,
                  df_rows = range_index (concat (map (cycle_rows scans timestamps)
                                                   [0 ..< length scans]))\<rparr>"
proof -
  have "collect_advertisements (zip_longest scans timestamps) []
          = Inr (concat (map (\<lambda>p. map (make_advertisement (snd p)) (fst p))
                  (zip scans (map Some timestamps
                     @ replicate (length scans - length timestamps) None))))"
    unfolding zip_longest_short [OF assms] collect_all_some by simp
  also have "\<dots> = Inr (concat (map (cycle_rows scans timestamps) [0 ..< length scans]))"
    unfolding zip_padded [OF assms] by (simp add: cycle_rows_eq comp_def)
  finally show ?thesis by (simp add: process_scans_def)
qed

lemma range_index_fst: "map fst (range_index xs) = [0 ..< length xs]"
  by (simp add: range_index_def)

lemma range_index_snd: "map snd (range_index xs) = xs"
  by (simp add: range_index_def)

lemma length_range_index: "length (range_index xs) = length xs"
  by (simp add: range_index_def)

lemma length_cycle_rows:
  "length (concat (map (cycle_rows scans timestamps) [0 ..< length scans]))
     = sum_list (map length scans)"
proof -
  have "map (\<lambda>i. length (scans ! i)) [0 ..< length scans]
          = map length (map (nth scans) [0 ..< length scans])"
    by simp
  also have "\<dots> = map length scans"
    by (simp only: map_nth)
  finally show ?thesis
    by (simp add: length_concat cycle_rows_eq comp_def)
qed

text \<open>
  Claim C7, as the code has it. When there are no more timestamps than scans,
  \<^verbatim>\<open>process_scans\<close> returns a table with the seven columns in their fixed order, indexed
  from zero, holding exactly one record for every entry of every cycle's scan, each paired
  with its cycle's timestamp or with nothing when the timestamps have run out; with no
  scans the table has no rows and the same header.
\<close>

theorem process_scans_total:
  assumes "length timestamps \<le> length scans"
  shows "\<exists>df. process_scans scans timestamps = Inr df
            \<and> df_columns df = [''ADDRESS'', ''TIMESTAMP'', ''UUID'', ''MAJOR'', ''MINOR'',
                               ''TX POWER'', ''RSSI'']
            \<and> length (df_rows df) = sum_list (map length scans)
            \<and> map fst (df_rows df) = [0 ..< length (df_rows df)]
            \<and> snd ` set (df_rows df)
                = {make_advertisement (stamp_of timestamps i) entry | i entry.
                     i < length scans \<and> entry \<in> set (scans ! i)}
            \<and> (scans = [] \<longrightarrow> df_rows df = [])"
proof -
  let ?rows = "concat (map (cycle_rows scans timestamps) [0 ..< length scans])"
  let ?df = "\<lparr>df_columns = COLUMNS, df_rows = range_index ?rows\<rparr>"
  have set: "set ?rows = {make_advertisement (stamp_of timestamps i) entry | i entry.
                            i < length scans \<and> entry \<in> set (scans ! i)}"
    by (fastforce simp: cycle_rows_eq)
  have "snd ` set (range_index ?rows) = set ?rows"
    using range_index_snd [of ?rows] by (metis set_map)
  with set have 5: "snd ` set (df_rows ?df)
      = {make_advertisement (stamp_of timestamps i) entry | i entry.
           i < length scans \<and> entry \<in> set (scans ! i)}"
    by simp
  have 1: "process_scans scans timestamps = Inr ?df"
    by (rule process_scans_rows [OF assms])
  have 2: "df_columns ?df = [''ADDRESS'', ''TIMESTAMP'', ''UUID'', ''MAJOR'', ''MINOR'',
                             ''TX POWER'', ''RSSI'']"
    by (simp add: COLUMNS_def)
  have 3: "length (df_rows ?df) = sum_list (map length scans)"
    by (simp add: length_range_index length_cycle_rows)
  have 4: "map fst (df_rows ?df) = [0 ..< length (df_rows ?df)]"
    by (simp add: range_index_fst length_range_index)
  have 6: "scans = [] \<longrightarrow> df_rows ?df = []"
    by (simp add: range_index_def)
  from 1 2 3 4 5 6 show ?thesis by blast
qed

lemmas scans_eval =
  process_scans_def make_advertisement_def range_index_def COLUMNS_def

theorem process_scans_total_witness:
  "process_scans [[(''AA:BB'', \<lparr>p_uuid = ''u'', p_major = 1, p_minor = 2, p_tx_power = -59,
                                 p_rssi = -65\<rparr>)]] []
     = Inr \<lparr>df_columns = [''ADDRESS'', ''TIMESTAMP'', ''UUID'', ''MAJOR'', ''MINOR'',
                          ''TX POWER'', ''RSSI''],
            df_rows = [(0, \<lparr>ADDRESS = ''AA:BB'', TIMESTAMP = None, UUID = ''u'', MAJOR = 1,
                            MINOR = 2, TX_POWER = -59, RSSI = -65\<rparr>)]\<rparr>
   \<and> process_scans [] [] = Inr \<lparr>df_columns = [''ADDRESS'', ''TIMESTAMP'', ''UUID'',
                                   ''MAJOR'', ''MINOR'', ''TX POWER'', ''RSSI''],
                                 df_rows = []\<rparr>"
proof -
  let ?p = "\<lparr>p_uuid = ''u'', p_major = 1, p_minor = 2, p_tx_power = -59, p_rssi = -65\<rparr>"
  obtain df where df: "process_scans [[(''AA:BB'', ?p)]] [] = Inr df"
    using process_scans_total [of "[]" "[[(''AA:BB'', ?p)]]"] by auto
  obtain df' where df': "process_scans [] [] = Inr df'"
      and rows: "([]::scan_result list) = [] \<longrightarrow> df_rows df' = []"
      and cols: "df_columns df' = [''ADDRESS'', ''TIMESTAMP'', ''UUID'', ''MAJOR'', ''MINOR'',
                                  ''TX POWER'', ''RSSI'']"
    using process_scans_total [of "[]" "[]"] by auto
  from df have 1: "process_scans [[(''AA:BB'', ?p)]] []
     = Inr \<lparr>df_columns = [''ADDRESS'', ''TIMESTAMP'', ''UUID'', ''MAJOR'', ''MINOR'',
                          ''TX POWER'', ''RSSI''],
            df_rows = [(0, \<lparr>ADDRESS = ''AA:BB'', TIMESTAMP = None, UUID = ''u'', MAJOR = 1,
                            MINOR = 2, TX_POWER = -59, RSSI = -65\<rparr>)]\<rparr>"
    by (simp add: scans_eval)
  from df' rows cols have 2: "process_scans [] [] = Inr \<lparr>df_columns = [''ADDRESS'',
      ''TIMESTAMP'', ''UUID'', ''MAJOR'', ''MINOR'', ''TX POWER'', ''RSSI''], df_rows = []\<rparr>"
    by simp
  from 1 2 show ?thesis by simp
qed

text \<open>
  Claim C7 as stated fails when there are more timestamps than scans: \<^verbatim>\<open>zip_longest\<close>
  then pairs the extra timestamp with \<^verbatim>\<open>None\<close> in place of a scan, and
  \<^verbatim>\<open>scan.items()\<close> raises.
\<close>

theorem process_scans_extra_timestamp_counterexample:
  "process_scans [] [Datetime 10] = Inl (AttributeError ''items'')"
  by (simp add: process_scans_def)

text \<open>
  Claim C9, as the code has it. The rows come cycle by cycle in the order the cycles were
  collected, and within one cycle in the order of that cycle's scan result; so the rows of
  any one address are in cycle order. The columns are ADDRESS, TIMESTAMP and then the
  payload fields. Nothing sorts or groups the rows by address.
\<close>

theorem process_scans_row_order:
  assumes "length timestamps \<le> length scans"
  shows "\<exists>df. process_scans scans timestamps = Inr df
            \<and> df_columns df = COLUMNS
            \<and> map snd (df_rows df)
                = concat (map (cycle_rows scans timestamps) [0 ..< length scans])
            \<and> (\<forall>address. filter (\<lambda>r. ADDRESS r = address) (map snd (df_rows df))
                  = concat (map (\<lambda>i. map (make_advertisement (stamp_of timestamps i))
                                       (filter (\<lambda>entry. fst entry = address) (scans ! i)))
                             [0 ..< length scans]))"
proof -
  let ?rows = "concat (map (cycle_rows scans timestamps) [0 ..< length scans])"
  let ?df = "\<lparr>df_columns = COLUMNS, df_rows = range_index ?rows\<rparr>"
  have 1: "process_scans scans timestamps = Inr ?df"
    by (rule process_scans_rows [OF assms])
  have 2: "map snd (df_rows ?df) = ?rows"
    by (simp add: range_index_snd)
  have 3: "filter (\<lambda>r. ADDRESS r = address) ?rows
             = concat (map (\<lambda>i. map (make_advertisement (stamp_of timestamps i))
                                  (filter (\<lambda>entry. fst entry = address) (scans ! i)))
                        [0 ..< length scans])" for address
    by (simp add: filter_concat cycle_rows_eq comp_def filter_map make_advertisement_def)
  from 1 2 3 show ?thesis by (intro exI [of _ ?df]) simp
qed

theorem process_scans_row_order_witness:
  "map_sum id (\<lambda>df. map (\<lambda>ir. (ADDRESS (snd ir), TIMESTAMP (snd ir))) (df_rows df))
     (process_scans
        [[(''A'', \<lparr>p_uuid = ''u'', p_major = 1, p_minor = 1, p_tx_power = 0, p_rssi = -50\<rparr>),
          (''B'', \<lparr>p_uuid = ''u'', p_major = 1, p_minor = 1, p_tx_power = 0, p_rssi = -60\<rparr>)],
         [(''A'', \<lparr>p_uuid = ''u'', p_major = 1, p_minor = 1, p_tx_power = 0, p_rssi = -51\<rparr>)]]
        [Datetime 10, Datetime 20])
   = Inr [(''A'', Some (Datetime 10)), (''B'', Some (Datetime 10)), (''A'', Some (Datetime 20))]"
proof -
  let ?a = "\<lparr>p_uuid = ''u'', p_major = 1, p_minor = 1, p_tx_power = 0, p_rssi = -50\<rparr>"
  let ?b = "\<lparr>p_uuid = ''u'', p_major = 1, p_minor = 1, p_tx_power = 0, p_rssi = -60\<rparr>"
  let ?c = "\<lparr>p_uuid = ''u'', p_major = 1, p_minor = 1, p_tx_power = 0, p_rssi = -51\<rparr>"
  let ?scans = "[[(''A'', ?a), (''B'', ?b)], [(''A'', ?c)]]"
  obtain df where df: "process_scans ?scans [Datetime 10, Datetime 20] = Inr df"
    and rows: "map snd (df_rows df) = concat (map (cycle_rows ?scans [Datetime 10, Datetime 20]) [0 ..< length ?scans])"
    using process_scans_row_order [of "[Datetime 10, Datetime 20]" ?scans] by auto
  have "[0 ..< length ?scans] = [0, 1]"
    by (simp add: upt_rec)
  with rows have "map snd (df_rows df)
      = [make_advertisement (Some (Datetime 10)) (''A'', ?a), make_advertisement (Some (Datetime 10)) (''B'', ?b),
         make_advertisement (Some (Datetime 20)) (''A'', ?c)]"
    by (simp add: cycle_rows_def stamp_of_def)
  then have "map (\<lambda>ir. (ADDRESS (snd ir), TIMESTAMP (snd ir))) (df_rows df)
      = [(''A'', Some (Datetime 10)), (''B'', Some (Datetime 10)), (''A'', Some (Datetime 20))]"
    by (auto simp: make_advertisement_def map_eq_Cons_conv)
  with df show ?thesis by simp
qed

text \<open>
  Claim C9 as stated fails whenever two addresses are heard in two cycles: the rows of
  address A are separated by the row of address B.
\<close>

theorem process_scans_grouping_counterexample:
  "map_sum id (\<lambda>df. grouped_by_address (map snd (df_rows df)))
     (process_scans
        [[(''A'', \<lparr>p_uuid = ''u'', p_major = 1, p_minor = 1, p_tx_power = 0, p_rssi = -50\<rparr>),
          (''B'', \<lparr>p_uuid = ''u'', p_major = 1, p_minor = 1, p_tx_power = 0, p_rssi = -60\<rparr>)],
         [(''A'', \<lparr>p_uuid = ''u'', p_major = 1, p_minor = 1, p_tx_power = 0, p_rssi = -51\<rparr>),
          (''B'', \<lparr>p_uuid = ''u'', p_major = 1, p_minor = 1, p_tx_power = 0, p_rssi = -61\<rparr>)]]
        [Datetime 10, Datetime 20])
   = Inr False"
  by (simp add: scans_eval grouped_by_address_def upt_rec)

section \<open>Filtering the records\<close>

lemma isin_well_formed:
  assumes "fst f \<in> set ID_FILTERS" and "well_formed_filter f"
  shows "py_eq (cell (fst f) r) (snd f) = satisfies f r"
proof (cases "snd f")
  case (PStr x)
  with assms(1) show ?thesis
    by (auto simp: ID_FILTERS_def py_eq_def cell_def satisfies_def)
next
  case (PInt i)
  with assms(1) show ?thesis
    by (auto simp: ID_FILTERS_def py_eq_def cell_def satisfies_def)
qed (use assms in \<open>simp_all add: well_formed_filter_def\<close>)

lemma numeric_literal_bounds:
  assumes "numeric_literal b"
  shows "f_le (num_val b) (Fin (of_int x)) = not_below b x"
    and "f_le (Fin (of_int x)) (num_val b) = not_above b x"
  using assms
  by (auto simp: numeric_literal_def not_below_def not_above_def
      split: pyval.splits pyfloat.splits)

lemma range_well_formed:
  assumes "fst f \<notin> set ID_FILTERS" and "well_formed_filter f"
  shows "\<exists>lo hi. subscript01 (snd f) = Inr (lo, hi)
           \<and> range_query library (fst f) lo hi advertisements
               = Inr (filter (\<lambda>ir. satisfies f (snd ir)) advertisements)"
proof -
  from assms obtain lo hi where key: "fst f = ''RSSI''" and v: "snd f = PList [lo, hi]"
    and num: "numeric_literal lo" "numeric_literal hi"
    by (auto simp: well_formed_filter_def split: pyval.splits list.splits)
  have "subscript01 (snd f) = Inr (lo, hi)"
    by (simp add: v subscript01_def)
  moreover have "range_query library (fst f) lo hi advertisements
                   = Inr (filter (\<lambda>ir. satisfies f (snd ir)) advertisements)"
    by (simp add: range_query_def key v num satisfies_def in_bounds_def
        numeric_literal_bounds)
  ultimately show ?thesis by blast
qed

lemma apply_filters_well_formed:
  "list_all well_formed_filter fs \<Longrightarrow>
   apply_filters library fs advertisements
     = Inr (filter (\<lambda>ir. list_all (\<lambda>f. satisfies f (snd ir)) fs) advertisements)"
proof (induction fs arbitrary: advertisements)
  case Nil
  then show ?case by simp
next
  case (Cons f fs)
  obtain key v where f: "f = (key, v)" by (cases f)
  from Cons.prems have wf: "well_formed_filter f" and rest: "list_all well_formed_filter fs"
    by simp_all
  have "apply_filters library (f # fs) advertisements
          = apply_filters library fs (filter (\<lambda>ir. satisfies f (snd ir)) advertisements)"
  proof (cases "key \<in> set ID_FILTERS")
    case True
    then have "py_eq (cell key (snd ir)) v = satisfies (key, v) (snd ir)"
      for ir :: "nat \<times> advertisement"
      using isin_well_formed [of f "snd ir"] wf by (simp add: f)
    with True show ?thesis
      by (simp add: f)
  next
    case False
    with wf obtain lo hi where "subscript01 v = Inr (lo, hi)"
      and "range_query library key lo hi advertisements
             = Inr (filter (\<lambda>ir. satisfies f (snd ir)) advertisements)"
      using range_well_formed [of f library advertisements] by (auto simp: f)
    with False show ?thesis
      by (simp add: f)
  qed
  then show ?case
    by (simp add: Cons.IH [OF rest] conj_commute)
qed

text \<open>
  Claim C4, as the code has it. Take a filter map whose entries are identity filters with
  a string or integer target, or RSSI filters with two numeric bounds. Whatever the
  data-frame library does with other queries, \<^verbatim>\<open>filter_advertisements\<close> returns the table
  with the same columns whose records are, in their original order, exactly the records
  that satisfy every filter: the identity filters by the field being the target, the RSSI
  filters by the RSSI lying in the inclusive range. The rows are indexed from zero without
  gaps, and a scanner holding the same filter entries in any other order returns the same
  table.
\<close>

theorem filter_advertisements_keeps_matching:
  assumes "list_all well_formed_filter (scn_filters s)"
  shows "\<exists>out. filter_advertisements library s df = Inr out
            \<and> df_columns out = df_columns df
            \<and> map snd (df_rows out)
                = filter (\<lambda>r. \<forall>f \<in> set (scn_filters s). satisfies f r) (map snd (df_rows df))
            \<and> map fst (df_rows out) = [0 ..< length (df_rows out)]
            \<and> (\<forall>s'. set (scn_filters s') = set (scn_filters s)
                  \<longrightarrow> filter_advertisements library s' df = Inr out)"
proof -
  let ?keep = "\<lambda>r. \<forall>f \<in> set (scn_filters s). satisfies f r"
  let ?out = "df\<lparr>df_rows := range_index (filter ?keep (map snd (df_rows df)))\<rparr>"
  have run: "filter_advertisements library s' df = Inr ?out"
    if same: "set (scn_filters s') = set (scn_filters s)" for s'
  proof -
    from assms same have "list_all well_formed_filter (scn_filters s')"
      by (simp add: list_all_iff)
    then have "apply_filters library (scn_filters s') (df_rows df)
                 = Inr (filter (\<lambda>ir. ?keep (snd ir)) (df_rows df))"
      by (simp add: apply_filters_well_formed list_all_iff same)
    then show ?thesis
      by (simp add: filter_advertisements_def reset_index_def filter_map comp_def)
  qed
  have "filter_advertisements library s df = Inr ?out"
    by (rule run) simp
  moreover have "df_columns ?out = df_columns df"
    by simp
  moreover have "map snd (df_rows ?out) = filter ?keep (map snd (df_rows df))"
    by (simp add: range_index_snd)
  moreover have "map fst (df_rows ?out) = [0 ..< length (df_rows ?out)]"
    by (simp add: range_index_fst length_range_index)
  ultimately show ?thesis
    using run by blast
qed

theorem filter_advertisements_keeps_matching_witness:
  "map_sum id df_rows
     (filter_advertisements refuses
        \<lparr>scn_control_file = ''scanner_control'', scn_control_file_handle = HClosed,
         scn_scan_prefix = ''pi_pact_scan'', scn_timeout = PInt 2, scn_revisit = PInt 1,
         scn_filters = [(''RSSI'', PList [PInt (-68), PInt (-60)]), (''MAJOR'', PInt 1)]\<rparr>
        \<lparr>df_columns = COLUMNS,
         df_rows =
           [(0, \<lparr>ADDRESS = ''AA:BB'', TIMESTAMP = Some (Datetime 1), UUID = ''u'', MAJOR = 1,
                 MINOR = 2, TX_POWER = -59, RSSI = -70\<rparr>),
            (1, \<lparr>ADDRESS = ''AA:BB'', TIMESTAMP = Some (Datetime 2), UUID = ''u'', MAJOR = 1,
                 MINOR = 2, TX_POWER = -59, RSSI = -65\<rparr>),
            (2, \<lparr>ADDRESS = ''CC:DD'', TIMESTAMP = Some (Datetime 2), UUID = ''u'', MAJOR = 7,
                 MINOR = 2, TX_POWER = -59, RSSI = -66\<rparr>)]\<rparr>)
   = Inr [(0, \<lparr>ADDRESS = ''AA:BB'', TIMESTAMP = Some (Datetime 2), UUID = ''u'', MAJOR = 1,
               MINOR = 2, TX_POWER = -59, RSSI = -65\<rparr>)]"
proof -
  let ?s = "\<lparr>scn_control_file = ''scanner_control'', scn_control_file_handle = HClosed,
         scn_scan_prefix = ''pi_pact_scan'', scn_timeout = PInt 2, scn_revisit = PInt 1,
         scn_filters = [(''RSSI'', PList [PInt (-68), PInt (-60)]), (''MAJOR'', PInt 1)]\<rparr>"
  let ?r1 = "\<lparr>ADDRESS = ''AA:BB'', TIMESTAMP = Some (Datetime 1), UUID = ''u'', MAJOR = 1,
                 MINOR = 2, TX_POWER = -59, RSSI = -70\<rparr>"
  let ?r2 = "\<lparr>ADDRESS = ''AA:BB'', TIMESTAMP = Some (Datetime 2), UUID = ''u'', MAJOR = 1,
                 MINOR = 2, TX_POWER = -59, RSSI = -65\<rparr>"
  let ?r3 = "\<lparr>ADDRESS = ''CC:DD'', TIMESTAMP = Some (Datetime 2), UUID = ''u'', MAJOR = 7,
                 MINOR = 2, TX_POWER = -59, RSSI = -66\<rparr>"
  let ?df = "\<lparr>df_columns = COLUMNS, df_rows = [(0, ?r1), (1, ?r2), (2, ?r3)]\<rparr>"
  have wf: "list_all well_formed_filter (scn_filters ?s)"
    by (simp add: well_formed_filter_def numeric_literal_def ID_FILTERS_def)
  obtain out where out: "filter_advertisements refuses ?s ?df = Inr out"
    and rows: "map snd (df_rows out)
         = filter (\<lambda>r. \<forall>f \<in> set (scn_filters ?s). satisfies f r) (map snd (df_rows ?df))"
    and idx: "map fst (df_rows out) = [0 ..< length (df_rows out)]"
    using filter_advertisements_keeps_matching [OF wf, of refuses ?df] by blast
  from rows have snds: "map snd (df_rows out) = [?r2]"
    by (simp add: satisfies_def in_bounds_def not_below_def not_above_def)
  then have "length (df_rows out) = 1"
    by (metis length_map length_Cons list.size(3) One_nat_def)
  with idx have "map fst (df_rows out) = [0]"
    by simp
  with snds have "df_rows out = [(0, ?r2)]"
    by (auto simp: map_eq_Cons_conv)
  with out show ?thesis by simp
qed

text \<open>
  Claim C4 as stated fails for other filter maps. A TIMESTAMP filter with numeric bounds
  compares numbers with the \<^verbatim>\<open>datetime\<close> values of the table and raises; a measurement
  filter with fewer than two bounds raises at \<^verbatim>\<open>value[1]\<close>.
\<close>

theorem filter_advertisements_counterexample:
  "filter_advertisements refuses
     \<lparr>scn_control_file = ''scanner_control'', scn_control_file_handle = HClosed,
      scn_scan_prefix = ''pi_pact_scan'', scn_timeout = PInt 2, scn_revisit = PInt 1,
      scn_filters = [(''TIMESTAMP'', PList [PInt 0, PInt 10])]\<rparr>
     \<lparr>df_columns = COLUMNS,
      df_rows = [(0, \<lparr>ADDRESS = ''AA:BB'', TIMESTAMP = Some (Datetime 5), UUID = ''u'',
                      MAJOR = 1, MINOR = 2, TX_POWER = -59, RSSI = -70\<rparr>)]\<rparr>
   = Inl (TypeError ''TIMESTAMP'')
   \<and> filter_advertisements refuses
     \<lparr>scn_control_file = ''scanner_control'', scn_control_file_handle = HClosed,
      scn_scan_prefix = ''pi_pact_scan'', scn_timeout = PInt 2, scn_revisit = PInt 1,
      scn_filters = [(''RSSI'', PList [PInt (-80)])]\<rparr>
     \<lparr>df_columns = COLUMNS,
      df_rows = [(0, \<lparr>ADDRESS = ''AA:BB'', TIMESTAMP = Some (Datetime 5), UUID = ''u'',
                      MAJOR = 1, MINOR = 2, TX_POWER = -59, RSSI = -70\<rparr>)]\<rparr>
   = Inl (IndexError ''value'')"
  by (simp add: filter_advertisements_def ID_FILTERS_def subscript01_def range_query_def
      numeric_literal_def)

section \<open>The scan loop under a timeout\<close>

lemma scan_loop_undisturbed:
  assumes "list_all (undisturbed r) cs"
    and "isinstance_float_int timeout" and "num_val timeout = Fin T" and "0 < r"
    and "\<not> poll path fs"
    and "ls_elapsed st \<le> T" and "T < ls_elapsed st + real (length cs) * r"
  shows "\<exists>st'. scan_loop cs timeout path st fs = (Some (Inr st'), fs)
            \<and> T < ls_elapsed st' \<and> ls_elapsed st' \<le> T + r
            \<and> (\<exists>k. ls_scan_count st' = ls_scan_count st + k
                   \<and> ls_elapsed st' = ls_elapsed st + real k * r)"
  using assms
proof (induction cs arbitrary: st)
  case Nil
  then show ?case by simp
next
  case (Cons c cs)
  from Cons.prems(1) have uc: "undisturbed r c" and rest: "list_all (undisturbed r) cs"
    by simp_all
  from uc obtain scan where c: "dur c = r" "written c = None" "heard c = Inr scan"
    by (cases "heard c") (auto simp: undisturbed_def)
  let ?st = "\<lparr>ls_timestamps = ls_timestamps st @ [stamp c], ls_scans = ls_scans st @ [scan],
              ls_scan_count = ls_scan_count st + 1, ls_elapsed = ls_elapsed st + r\<rparr>"
  from Cons.prems(2) have notnone: "timeout \<noteq> PNone"
    by auto
  have gt: "elapsed_gt (ls_elapsed st + r) timeout = Inr (T < ls_elapsed st + r)"
    using Cons.prems(2,3) by (simp add: elapsed_gt_def)
  show ?case
  proof (cases "T < ls_elapsed st + r")
    case True
    then have "scan_loop (c # cs) timeout path st fs = (Some (Inr ?st), fs)"
      using c notnone gt by (simp add: world_writes_def)
    moreover have "ls_scan_count ?st = ls_scan_count st + 1
        \<and> ls_elapsed ?st = ls_elapsed st + real 1 * r"
      by simp
    ultimately show ?thesis
      using True Cons.prems(6) by (intro exI [of _ ?st]) auto
  next
    case False
    then have step: "scan_loop (c # cs) timeout path st fs = scan_loop cs timeout path ?st fs"
      using c notnone gt Cons.prems(5) by (simp add: world_writes_def)
    have le: "ls_elapsed ?st \<le> T"
      using False by simp
    have fuel: "T < ls_elapsed ?st + real (length cs) * r"
      using Cons.prems(7) by (simp add: algebra_simps)
    from Cons.IH [OF rest Cons.prems(2,3,4,5) le fuel]
    obtain st' k where run: "scan_loop cs timeout path ?st fs = (Some (Inr st'), fs)"
      and b: "T < ls_elapsed st'" "ls_elapsed st' \<le> T + r"
      and k: "ls_scan_count st' = ls_scan_count ?st + k"
         "ls_elapsed st' = ls_elapsed ?st + real k * r"
      by blast
    from k have "ls_scan_count st' = ls_scan_count st + (k + 1)
        \<and> ls_elapsed st' = ls_elapsed st + real (k + 1) * r"
      by (simp add: algebra_simps)
    with run b step show ?thesis
      by (intro exI [of _ st']) metis
  qed
qed

lemma scan_not_running:
  "scan_loop cycles (if py_eq targ (PInt 0) then scn_timeout s else targ) (scn_control_file s)
     loop_start (write_zero (scn_control_file s) fs) = (Some res, fs2) \<Longrightarrow>
   fst (scan library now cycles prefix targ s fs) \<noteq> Running"
  by (cases res) (auto simp: scan_def Let_def split: sum.splits)

text \<open>
  Claim C3, as the code has it. A scanner has a timeout of \<open>T > 0\<close> seconds and a revisit
  interval of \<open>r\<close> seconds; every cycle takes exactly \<open>r\<close> seconds, nothing is written to
  the control file and the radio service does not fail. Then, once the world has provided
  enough cycles to pass the timeout, the scan loop ends, after a whole number of cycles,
  with an elapsed time strictly greater than \<open>T\<close> and at most \<open>T + r\<close>; and \<^verbatim>\<open>scan\<close>
  returns.
\<close>

theorem scan_timeout_overrun_bound:
  assumes "isinstance_float_int (scn_timeout s)" and "num_val (scn_timeout s) = Fin T"
    and "0 < T" and "r = real_of_int (int_val (scn_revisit s))" and "0 < r"
    and "list_all (undisturbed r) cycles" and "T < real (length cycles) * r"
  shows "\<exists>st fs'.
           scan_loop cycles (scn_timeout s) (scn_control_file s) loop_start
               (write_zero (scn_control_file s) fs) = (Some (Inr st), fs')
           \<and> T < ls_elapsed st \<and> ls_elapsed st \<le> T + r
           \<and> ls_elapsed st = real (ls_scan_count st) * r
           \<and> fst (scan library now cycles prefix (PInt 0) s fs) \<noteq> Running"
proof -
  let ?path = "scn_control_file s"
  let ?fs = "write_zero ?path fs"
  have quiet: "\<not> poll ?path ?fs"
    by (simp add: poll_def read_control_def write_zero_def)
  have start: "ls_elapsed loop_start \<le> T"
    "T < ls_elapsed loop_start + real (length cycles) * r"
    using assms(3,7) by (simp_all add: loop_start_def)
  from scan_loop_undisturbed [OF assms(6,1,2,5) quiet start]
  obtain st k where run: "scan_loop cycles (scn_timeout s) ?path loop_start ?fs
                            = (Some (Inr st), ?fs)"
    and b: "T < ls_elapsed st" "ls_elapsed st \<le> T + r"
    and k: "ls_scan_count st = ls_scan_count loop_start + k"
       "ls_elapsed st = ls_elapsed loop_start + real k * r"
    by blast
  from k have whole: "ls_elapsed st = real (ls_scan_count st) * r"
    by (simp add: loop_start_def)
  have "fst (scan library now cycles prefix (PInt 0) s fs) \<noteq> Running"
    using run scan_not_running [of cycles "PInt 0" s fs "Inr st" ?fs library now prefix]
    by (simp add: py_eq_def)
  with run b whole show ?thesis by blast
qed

lemmas loop_eval =
  loop_start_def world_writes_def elapsed_gt_def poll_def read_control_def write_zero_def
  external_write_def

theorem scan_timeout_overrun_bound_witness:
  "map_option (map_sum id ls_elapsed)
     (fst (scan_loop
        [\<lparr>dur = 2, written = None, stamp = Datetime 0, heard = Inr []\<rparr>,
         \<lparr>dur = 2, written = None, stamp = Datetime 2, heard = Inr []\<rparr>,
         \<lparr>dur = 2, written = None, stamp = Datetime 4, heard = Inr []\<rparr>]
        (PInt 3) ''scanner_control'' loop_start
        (write_zero ''scanner_control'' Map.empty)))
   = Some (Inr 4)"
proof -
  let ?s = "\<lparr>scn_control_file = ''scanner_control'', scn_control_file_handle = HNone,
             scn_scan_prefix = ''pi_pact_scan'', scn_timeout = PInt 3, scn_revisit = PInt 2,
             scn_filters = []\<rparr>"
  let ?cycles = "[\<lparr>dur = 2, written = None, stamp = Datetime 0, heard = Inr []\<rparr>,
         \<lparr>dur = 2, written = None, stamp = Datetime 2, heard = Inr ([]::scan_result)\<rparr>,
         \<lparr>dur = 2, written = None, stamp = Datetime 4, heard = Inr []\<rparr>]"
  have "\<exists>st fs'.
           scan_loop ?cycles (scn_timeout ?s) (scn_control_file ?s) loop_start
               (write_zero (scn_control_file ?s) Map.empty) = (Some (Inr st), fs')
           \<and> 3 < ls_elapsed st \<and> ls_elapsed st \<le> 3 + 2
           \<and> ls_elapsed st = real (ls_scan_count st) * 2
           \<and> fst (scan refuses [] ?cycles [] (PInt 0) ?s Map.empty) \<noteq> Running"
    by (rule scan_timeout_overrun_bound [where T = 3 and r = 2])
      (simp_all add: undisturbed_def)
  then obtain st fs' where
    run: "scan_loop ?cycles (PInt 3) ''scanner_control'' loop_start
            (write_zero ''scanner_control'' Map.empty) = (Some (Inr st), fs')"
    by auto
  then have "ls_elapsed st = 4"
    by (auto simp: loop_eval)
  with run show ?thesis by simp
qed

text \<open>
  Claim C3 as stated fails when the timeout is a whole number of cycles: the loop stops
  only once the elapsed time is strictly greater than the timeout, so with a timeout of 2
  seconds and cycles of 1 second it runs for 3 seconds, which is not less than 2 + 1.
\<close>

theorem scan_timeout_strict_bound_counterexample:
  "map_option (map_sum id ls_elapsed)
     (fst (scan_loop
        [\<lparr>dur = 1, written = None, stamp = Datetime 0, heard = Inr []\<rparr>,
         \<lparr>dur = 1, written = None, stamp = Datetime 1, heard = Inr []\<rparr>,
         \<lparr>dur = 1, written = None, stamp = Datetime 2, heard = Inr []\<rparr>,
         \<lparr>dur = 1, written = None, stamp = Datetime 3, heard = Inr []\<rparr>]
        (PInt 2) ''scanner_control'' loop_start
        (write_zero ''scanner_control'' Map.empty)))
   = Some (Inr 3)
   \<and> \<not> (3 < (2::real) + 1)"
  by (simp add: loop_eval)

section \<open>Cleanup and the control file\<close>

lemma scan_loop_raises:
  "scan_loop cycles (if py_eq targ (PInt 0) then scn_timeout s else targ) (scn_control_file s)
     loop_start (write_zero (scn_control_file s) fs) = (Some (Inl e), fs2) \<Longrightarrow>
   scan library now cycles prefix targ s fs = (Raised e, s\<lparr>scn_control_file_handle := HOpen\<rparr>, fs2)"
  by (simp add: scan_def Let_def)

lemma scan_Returned:
  "scan library now cycles prefix targ s fs = (Returned x, s', fs') \<Longrightarrow>
   scn_control_file_handle s' = HClosed \<and> fs' (scn_control_file s) = Some ''0''"
  by (auto simp: scan_def Let_def write_zero_def split: prod.splits option.splits sum.splits)

lemma advertise_stop_fault:
  "\<not> start_fault env \<Longrightarrow> stop_fault env \<Longrightarrow>
   advertise_loop (adv_cycles env) (if py_eq targ (PInt 0) then adv_timeout a else targ)
     (adv_control_file a) 0 (write_zero (adv_control_file a) fs) = (Some (Inr u), fs2) \<Longrightarrow>
   advertise env targ a fs
     = (Raised (RadioFault ''stop_advertising''), a\<lparr>adv_control_file_handle := HOpen\<rparr>, fs2)"
  by (simp add: advertise_def Let_def)

lemma advertise_Returned:
  "advertise env targ a fs = (Returned y, a', fs') \<Longrightarrow>
   adv_control_file_handle a' = HClosed \<and> fs' (adv_control_file a) = Some ''0''"
  by (auto simp: advertise_def Let_def write_zero_def
      split: prod.splits option.splits sum.splits if_splits)

text \<open>
  Claim C2, as the code has it. Neither \<^verbatim>\<open>scan\<close> nor \<^verbatim>\<open>advertise\<close> guards its loop: when
  the radio service raises during a scan cycle, or when stopping the advertisement raises,
  the error reaches the caller at once, with the control-file handle still open and the
  control file as the loop left it (a cycle that fails leaves in it whatever was written
  during that cycle). The cleanup runs only when the call returns: then the handle is
  closed and the control file holds "0". After a fault it is the destructor that closes
  the handle and removes the file.
\<close>

theorem radio_fault_skips_cleanup:
  "(scan_loop cycles (if py_eq targ (PInt 0) then scn_timeout s else targ)
        (scn_control_file s) loop_start (write_zero (scn_control_file s) fs)
      = (Some (Inl e), left)
    \<longrightarrow> scan library now cycles prefix targ s fs
          = (Raised e, s\<lparr>scn_control_file_handle := HOpen\<rparr>, left))
   \<and> (heard c = Inl e
    \<longrightarrow> scan_loop (c # cs) timeout path st fs0
          = (Some (Inl e), world_writes path (written c) fs0))
   \<and> (scan library now cycles prefix targ s fs = (Returned x, s', fs')
    \<longrightarrow> scn_control_file_handle s' = HClosed \<and> fs' (scn_control_file s) = Some ''0'')
   \<and> (\<not> start_fault env \<and> stop_fault env
      \<and> advertise_loop (adv_cycles env) (if py_eq targ (PInt 0) then adv_timeout a else targ)
            (adv_control_file a) 0 (write_zero (adv_control_file a) fs) = (Some (Inr u), left)
    \<longrightarrow> advertise env targ a fs
          = (Raised (RadioFault ''stop_advertising''),
             a\<lparr>adv_control_file_handle := HOpen\<rparr>, left))
   \<and> (advertise env targ a fs = (Returned y, a', fs')
    \<longrightarrow> adv_control_file_handle a' = HClosed \<and> fs' (adv_control_file a) = Some ''0'')
   \<and> Scanner_del (s\<lparr>scn_control_file_handle := HOpen\<rparr>) left
       = (s\<lparr>scn_control_file_handle := HClosed\<rparr>, left(scn_control_file s := None))
   \<and> Advertiser_del (a\<lparr>adv_control_file_handle := HOpen\<rparr>) left
       = (a\<lparr>adv_control_file_handle := HClosed\<rparr>, left(adv_control_file a := None))"
proof (intro conjI impI)
  assume "scan_loop cycles (if py_eq targ (PInt 0) then scn_timeout s else targ)
        (scn_control_file s) loop_start (write_zero (scn_control_file s) fs)
      = (Some (Inl e), left)"
  then show "scan library now cycles prefix targ s fs
          = (Raised e, s\<lparr>scn_control_file_handle := HOpen\<rparr>, left)"
    by (rule scan_loop_raises)
next
  assume "heard c = Inl e"
  then show "scan_loop (c # cs) timeout path st fs0
          = (Some (Inl e), world_writes path (written c) fs0)"
    by simp
next
  assume r: "scan library now cycles prefix targ s fs = (Returned x, s', fs')"
  from scan_Returned [OF r] show "scn_control_file_handle s' = HClosed"
    and "fs' (scn_control_file s) = Some ''0''"
    by simp_all
next
  assume "\<not> start_fault env \<and> stop_fault env
      \<and> advertise_loop (adv_cycles env) (if py_eq targ (PInt 0) then adv_timeout a else targ)
            (adv_control_file a) 0 (write_zero (adv_control_file a) fs) = (Some (Inr u), left)"
  then show "advertise env targ a fs
          = (Raised (RadioFault ''stop_advertising''),
             a\<lparr>adv_control_file_handle := HOpen\<rparr>, left)"
    using advertise_stop_fault by blast
next
  assume r: "advertise env targ a fs = (Returned y, a', fs')"
  from advertise_Returned [OF r] show "adv_control_file_handle a' = HClosed"
    and "fs' (adv_control_file a) = Some ''0''"
    by simp_all
next
  show "Scanner_del (s\<lparr>scn_control_file_handle := HOpen\<rparr>) left
       = (s\<lparr>scn_control_file_handle := HClosed\<rparr>, left(scn_control_file s := None))"
    by (simp add: Scanner_del_def)
next
  show "Advertiser_del (a\<lparr>adv_control_file_handle := HOpen\<rparr>) left
       = (a\<lparr>adv_control_file_handle := HClosed\<rparr>, left(adv_control_file a := None))"
    by (simp add: Advertiser_del_def)
qed

theorem radio_fault_skips_cleanup_witness:
  "advertise \<lparr>start_fault = False, stop_fault = True,
              adv_cycles = [\<lparr>dur = 1, written = Some ''stop''\<rparr>]\<rparr> (PInt 0)
     \<lparr>adv_control_file = ''advertiser_control'', adv_control_file_handle = HNone,
      adv_timeout = PNone, adv_uuid = ''u'', adv_major = PInt 1, adv_minor = PInt 1,
      adv_tx_power = PInt 1, adv_interval = PInt 200\<rparr> Map.empty
   = (Raised (RadioFault ''stop_advertising''),
      \<lparr>adv_control_file = ''advertiser_control'', adv_control_file_handle = HOpen,
       adv_timeout = PNone, adv_uuid = ''u'', adv_major = PInt 1, adv_minor = PInt 1,
       adv_tx_power = PInt 1, adv_interval = PInt 200\<rparr>,
      [''advertiser_control'' \<mapsto> ''stop''])"
proof -
  let ?env = "\<lparr>start_fault = False, stop_fault = True,
              adv_cycles = [\<lparr>dur = 1, written = Some ''stop''\<rparr>]\<rparr>"
  let ?a = "\<lparr>adv_control_file = ''advertiser_control'', adv_control_file_handle = HNone,
      adv_timeout = PNone, adv_uuid = ''u'', adv_major = PInt 1, adv_minor = PInt 1,
      adv_tx_power = PInt 1, adv_interval = PInt 200\<rparr>"
  have loop: "\<not> start_fault ?env \<and> stop_fault ?env
      \<and> advertise_loop (adv_cycles ?env)
            (if py_eq (PInt 0) (PInt 0) then adv_timeout ?a else PInt 0)
            (adv_control_file ?a) 0 (write_zero (adv_control_file ?a) Map.empty)
          = (Some (Inr ()), [''advertiser_control'' \<mapsto> ''stop''])"
    by (simp add: loop_eval py_eq_def)
  from radio_fault_skips_cleanup [where env = ?env and targ = "PInt 0" and a = ?a
      and fs = Map.empty and u = "()" and left = "[''advertiser_control'' \<mapsto> ''stop'']"]
  have "\<not> start_fault ?env \<and> stop_fault ?env
      \<and> advertise_loop (adv_cycles ?env)
            (if py_eq (PInt 0) (PInt 0) then adv_timeout ?a else PInt 0)
            (adv_control_file ?a) 0 (write_zero (adv_control_file ?a) Map.empty)
          = (Some (Inr ()), [''advertiser_control'' \<mapsto> ''stop''])
    \<longrightarrow> advertise ?env (PInt 0) ?a Map.empty
          = (Raised (RadioFault ''stop_advertising''),
             ?a\<lparr>adv_control_file_handle := HOpen\<rparr>, [''advertiser_control'' \<mapsto> ''stop''])"
    by blast
  with loop show ?thesis by simp
qed

text \<open>
  Claim C2 as stated fails: a scan cycle in which the radio service raises, while another
  process writes a stop request, ends \<^verbatim>\<open>scan\<close> with the handle open and the stop request
  still in the control file.
\<close>

theorem scan_fault_no_cleanup_counterexample:
  "scan refuses ''20200101T000000''
     [\<lparr>dur = 1, written = Some ''1'', stamp = Datetime 0, heard = Inl (RadioFault ''scan'')\<rparr>]
     [] (PInt 0)
     \<lparr>scn_control_file = ''scanner_control'', scn_control_file_handle = HNone,
      scn_scan_prefix = ''pi_pact_scan'', scn_timeout = PNone, scn_revisit = PInt 1,
      scn_filters = []\<rparr> Map.empty
   = (Raised (RadioFault ''scan''),
      \<lparr>scn_control_file = ''scanner_control'', scn_control_file_handle = HOpen,
       scn_scan_prefix = ''pi_pact_scan'', scn_timeout = PNone, scn_revisit = PInt 1,
       scn_filters = []\<rparr>,
      [''scanner_control'' \<mapsto> ''1''])"
  by (simp add: scan_def loop_eval py_eq_def)

section \<open>The life of the control file\<close>













section \<open>Resolving the configuration\<close>

lemma map_of_dict_set: "map_of (dict_set k v d) = (map_of d)(k \<mapsto> v)"
  by (induction d) (auto simp: fun_eq_iff)

lemma keys_dict_set: "fst ` set (dict_set k v d) = insert k (fst ` set d)"
proof -
  have "dom (map_of (dict_set k v d)) = insert k (dom (map_of d))"
    by (simp add: map_of_dict_set)
  then show ?thesis
    by (simp add: dom_map_of_conv_image_fst)
qed

lemma keys_dict_merge: "fst ` set (dict_merge a b) = fst ` set a \<union> fst ` set b"
  unfolding dict_merge_def
proof (induction b arbitrary: a)
  case Nil
  then show ?case by simp
next
  case (Cons x b)
  have "fst ` set (fold (\<lambda>kv. dict_set (fst kv) (snd kv)) (x # b) a)
          = fst ` set (dict_set (fst x) (snd x) a) \<union> fst ` set b"
    using Cons.IH [of "dict_set (fst x) (snd x) a"] by simp
  also have "\<dots> = fst ` set a \<union> fst ` set (x # b)"
    unfolding keys_dict_set by simp
  finally show ?case .
qed

lemma map_of_dict_merge:
  "distinct (map fst b) \<Longrightarrow> map_of (dict_merge a b) k = file_or_default b a k"
  unfolding dict_merge_def file_or_default_def
proof (induction b arbitrary: a)
  case Nil
  then show ?case by simp
next
  case (Cons x b)
  then have fresh: "fst x \<notin> fst ` set b" and d: "distinct (map fst b)"
    by simp_all
  from fresh have none: "map_of b (fst x) = None"
    by (simp add: map_of_eq_None_iff image_iff)
  show ?case
    using Cons.IH [OF d, of "dict_set (fst x) (snd x) a"] none
    by (cases x) (auto simp: map_of_dict_set split: option.splits)
qed

lemma apply_overrides_lookup:
  "distinct (map fst items) \<Longrightarrow>
   map_of (fst (apply_overrides items (adv, scn))) k
     = (case map_of items k of
          Some v \<Rightarrow> if v \<noteq> PNone \<and> k \<in> fst ` set adv then Some v else map_of adv k
        | None \<Rightarrow> map_of adv k)
   \<and> map_of (snd (apply_overrides items (adv, scn))) k
     = (case map_of items k of
          Some v \<Rightarrow> if v \<noteq> PNone \<and> k \<in> fst ` set scn then Some v else map_of scn k
        | None \<Rightarrow> map_of scn k)"
proof (induction items arbitrary: adv scn)
  case Nil
  then show ?case by simp
next
  case (Cons item items)
  obtain key v where item: "item = (key, v)" by (cases item)
  from Cons.prems item have none: "map_of items key = None" and d: "distinct (map fst items)"
    by (simp_all add: map_of_eq_None_iff image_iff)
  show ?case
    using Cons.IH [OF d] none
    by (auto simp: item map_of_dict_set keys_dict_set insert_absorb split: option.splits)
qed

lemma distinct_args_items: "distinct (map fst (args_items pa))"
  by (simp add: args_items_def)

text \<open>Each section, after the defaults are merged with the file and the command line is
  applied, holds for every default key the value that precedence gives it.\<close>

lemma resolve_section:
  assumes "distinct (map fst items)" and "distinct (map fst file)"
    and "k \<in> fst ` set dflt"
  shows "map_of (fst (apply_overrides items (dict_merge dflt file, other))) k
           = resolved items file dflt k"
    and "map_of (snd (apply_overrides items (other, dict_merge dflt file))) k
           = resolved items file dflt k"
proof -
  from assms(3) have "k \<in> fst ` set (dict_merge dflt file)"
    by (simp add: keys_dict_merge)
  then show "map_of (fst (apply_overrides items (dict_merge dflt file, other))) k
           = resolved items file dflt k"
    and "map_of (snd (apply_overrides items (other, dict_merge dflt file))) k
           = resolved items file dflt k"
    using apply_overrides_lookup [OF assms(1), of "dict_merge dflt file" other k]
      apply_overrides_lookup [OF assms(1), of other "dict_merge dflt file" k]
    by (auto simp: resolved_def map_of_dict_merge [OF assms(2)] split: option.splits)
qed

lemma set_fold_dict_del: "set (fold dict_del ks d) \<subseteq> set d"
proof (induction ks arbitrary: d)
  case Nil
  then show ?case by simp
next
  case (Cons k ks)
  have "set (fold dict_del ks (dict_del k d)) \<subseteq> set (dict_del k d)"
    by (rule Cons.IH)
  also have "\<dots> \<subseteq> set d"
    by (auto simp: dict_del_def)
  finally show ?case by simp
qed

lemma remove_malformed_other_keys:
  "remove_malformed scn = Inr scn' \<Longrightarrow> k \<noteq> ''filters'' \<Longrightarrow> map_of scn' k = map_of scn k"
  by (auto simp: remove_malformed_def map_of_dict_set
      split: option.splits pyval.splits sum.splits)

lemma remove_malformed_filters:
  "remove_malformed scn = Inr scn' \<Longrightarrow>
   (map_of scn ''filters'' = Some PNone \<and> map_of scn' ''filters'' = Some PNone)
   \<or> (\<exists>f f'. map_of scn ''filters'' = Some (PDict f)
         \<and> map_of scn' ''filters'' = Some (PDict f') \<and> set f' \<subseteq> set f)"
  by (auto simp: remove_malformed_def map_of_dict_set set_fold_dict_del
      split: option.splits pyval.splits sum.splits)

lemma load_config_Inr:
  assumes "load_config pa yml = Inr cfg"
  shows "\<exists>config scn'.
           remove_malformed
             (snd (apply_overrides (args_items pa)
                (dict_merge DEFAULT_advertiser (file_section pa yml ''advertiser''),
                 dict_merge DEFAULT_scanner (file_section pa yml ''scanner''))))
             = Inr scn'
           \<and> cfg = dict_set ''scanner'' (PDict scn')
                   (dict_set ''advertiser''
                      (PDict (fst (apply_overrides (args_items pa)
                         (dict_merge DEFAULT_advertiser (file_section pa yml ''advertiser''),
                          dict_merge DEFAULT_scanner (file_section pa yml ''scanner'')))))
                      config)"
proof (cases "arg_config_yml pa = None")
  case True
  then have "file_section pa yml ''advertiser'' = []" "file_section pa yml ''scanner'' = []"
    by (simp_all add: file_section_def)
  with assms True show ?thesis
    by (auto simp: load_config_def dict_merge_def split: prod.splits sum.splits)
next
  case False
  with assms obtain a sc where a: "section_of yml ''advertiser'' = Inr a"
    and sc: "section_of yml ''scanner'' = Inr sc"
    by (auto simp: load_config_def split: sum.splits)
  with False have "file_section pa yml ''advertiser'' = a" "file_section pa yml ''scanner'' = sc"
    by (auto simp: file_section_def)
  with assms False a sc show ?thesis
    by (auto simp: load_config_def split: prod.splits sum.splits)
qed

text \<open>
  Claim C8. When \<^verbatim>\<open>load_config\<close> returns, the advertiser and scanner sections of the
  configuration hold, for every key of the default configuration, the value that
  precedence gives it: the command-line value when one was given, else the value in the
  loaded file's section when the key is there, else the default. The scanner's filters are
  resolved in the same way and then pruned of malformed entries. (The sections of the file
  are mappings, so their keys are distinct.)
\<close>

theorem load_config_precedence:
  assumes "load_config pa yml = Inr cfg"
    and "distinct (map fst (file_section pa yml ''advertiser''))"
    and "distinct (map fst (file_section pa yml ''scanner''))"
  shows "\<exists>adv scn.
           map_of cfg ''advertiser'' = Some (PDict adv)
         \<and> map_of cfg ''scanner'' = Some (PDict scn)
         \<and> (\<forall>key \<in> fst ` set DEFAULT_advertiser.
               map_of adv key
                 = resolved (args_items pa) (file_section pa yml ''advertiser'')
                     DEFAULT_advertiser key)
         \<and> (\<forall>key \<in> fst ` set DEFAULT_scanner. key \<noteq> ''filters'' \<longrightarrow>
               map_of scn key
                 = resolved (args_items pa) (file_section pa yml ''scanner'')
                     DEFAULT_scanner key)
         \<and> ((resolved (args_items pa) (file_section pa yml ''scanner'') DEFAULT_scanner
                ''filters'' = Some PNone
              \<and> map_of scn ''filters'' = Some PNone)
            \<or> (\<exists>f f'. resolved (args_items pa) (file_section pa yml ''scanner'')
                          DEFAULT_scanner ''filters'' = Some (PDict f)
                  \<and> map_of scn ''filters'' = Some (PDict f') \<and> set f' \<subseteq> set f))"
proof -
  let ?fa = "file_section pa yml ''advertiser''"
  let ?fs = "file_section pa yml ''scanner''"
  let ?over = "apply_overrides (args_items pa)
                 (dict_merge DEFAULT_advertiser ?fa, dict_merge DEFAULT_scanner ?fs)"
  from load_config_Inr [OF assms(1)] obtain config scn where
    rm: "remove_malformed (snd ?over) = Inr scn"
    and cfg: "cfg = dict_set ''scanner'' (PDict scn)
                      (dict_set ''advertiser'' (PDict (fst ?over)) config)"
    by blast
  have 1: "map_of cfg ''advertiser'' = Some (PDict (fst ?over))"
    by (simp add: cfg map_of_dict_set)
  have 2: "map_of cfg ''scanner'' = Some (PDict scn)"
    by (simp add: cfg map_of_dict_set)
  have 3: "\<forall>key \<in> fst ` set DEFAULT_advertiser.
             map_of (fst ?over) key = resolved (args_items pa) ?fa DEFAULT_advertiser key"
    using resolve_section(1) [OF distinct_args_items assms(2)] by blast
  have pre: "map_of (snd ?over) key = resolved (args_items pa) ?fs DEFAULT_scanner key"
    if "key \<in> fst ` set DEFAULT_scanner" for key
    using resolve_section(2) [OF distinct_args_items assms(3) that] by blast
  have 4: "\<forall>key \<in> fst ` set DEFAULT_scanner. key \<noteq> ''filters'' \<longrightarrow>
             map_of scn key = resolved (args_items pa) ?fs DEFAULT_scanner key"
    using pre remove_malformed_other_keys [OF rm] by simp
  have "''filters'' \<in> fst ` set DEFAULT_scanner"
    by (simp add: DEFAULT_scanner_def)
  from pre [OF this] remove_malformed_filters [OF rm]
  have 5: "(resolved (args_items pa) ?fs DEFAULT_scanner ''filters'' = Some PNone
              \<and> map_of scn ''filters'' = Some PNone)
            \<or> (\<exists>f f'. resolved (args_items pa) ?fs DEFAULT_scanner ''filters''
                         = Some (PDict f)
                  \<and> map_of scn ''filters'' = Some (PDict f') \<and> set f' \<subseteq> set f)"
    by simp
  from 1 2 3 4 5 show ?thesis by blast
qed

lemmas config_eval =
  load_config_def section_of_def dict_merge_def args_items_def opt_def remove_malformed_def
  file_section_def py_len_def dict_del_def DEFAULT_CONFIG_def DEFAULT_advertiser_def
  DEFAULT_scanner_def ALLOWABLE_FILTERS_def ID_FILTERS_def MEASUREMENT_FILTERS_def

theorem load_config_precedence_witness:
  "map_sum id
     (\<lambda>cfg. map_option
        (\<lambda>sec. case sec of
                  PDict adv \<Rightarrow> [map_of adv ''major'', map_of adv ''minor'', map_of adv ''tx_power'']
                | _ \<Rightarrow> [])
        (map_of cfg ''advertiser''))
     (load_config
        \<lparr>arg_advertiser = True, arg_scanner = False, arg_config_yml = Some ''config.yml'',
         arg_control_file = None, arg_scan_prefix = None, arg_timeout = None, arg_uuid = None,
         arg_major = Some 7, arg_minor = None, arg_tx_power = None, arg_interval = None,
         arg_revisit = None\<rparr>
        (PDict [(''advertiser'', PDict [(''minor'', PInt 9), (''major'', PInt 3)]),
                (''scanner'', PDict [])]))
   = Inr (Some [Some (PInt 7), Some (PInt 9), Some (PInt 1)])"
proof -
  let ?pa = "\<lparr>arg_advertiser = True, arg_scanner = False, arg_config_yml = Some ''config.yml'',
         arg_control_file = None, arg_scan_prefix = None, arg_timeout = None, arg_uuid = None,
         arg_major = Some 7, arg_minor = None, arg_tx_power = None, arg_interval = None,
         arg_revisit = None\<rparr>"
  let ?yml = "PDict [(''advertiser'', PDict [(''minor'', PInt 9), (''major'', PInt 3)]),
                (''scanner'', PDict [])]"
  obtain cfg where cfg: "load_config ?pa ?yml = Inr cfg"
    by (simp add: config_eval)
  have fa: "file_section ?pa ?yml ''advertiser'' = [(''minor'', PInt 9), (''major'', PInt 3)]"
    and fs: "file_section ?pa ?yml ''scanner'' = []"
    by (simp_all add: file_section_def section_of_def)
  have d: "distinct (map fst (file_section ?pa ?yml ''advertiser''))"
    "distinct (map fst (file_section ?pa ?yml ''scanner''))"
    by (simp_all add: fa fs)
  from load_config_precedence [OF cfg d] obtain adv where
    sec: "map_of cfg ''advertiser'' = Some (PDict adv)"
    and keys: "\<forall>key \<in> fst ` set DEFAULT_advertiser.
               map_of adv key
                 = resolved (args_items ?pa) (file_section ?pa ?yml ''advertiser'')
                     DEFAULT_advertiser key"
    by blast
  have "map_of adv ''major'' = Some (PInt 7)"
    using keys [rule_format, of "''major''"]
    by (simp add: fa resolved_def file_or_default_def args_items_def opt_def
        DEFAULT_advertiser_def)
  moreover have "map_of adv ''minor'' = Some (PInt 9)"
    using keys [rule_format, of "''minor''"]
    by (simp add: fa resolved_def file_or_default_def args_items_def opt_def
        DEFAULT_advertiser_def)
  moreover have "map_of adv ''tx_power'' = Some (PInt 1)"
    using keys [rule_format, of "''tx_power''"]
    by (simp add: fa resolved_def file_or_default_def args_items_def opt_def
        DEFAULT_advertiser_def)
  ultimately show ?thesis
    by (simp add: cfg sec)
qed

section \<open>Malformed filters\<close>

lemma fold_dict_del: "fold dict_del ks d = filter (\<lambda>kv. fst kv \<notin> set ks) d"
  by (induction ks arbitrary: d) (auto simp: dict_del_def intro: filter_cong)

lemma filters_to_remove_marks:
  "filters_to_remove f acc = Inr ks \<Longrightarrow>
   set ks = set acc \<union> fst ` {e \<in> set f. malformed_filter e}"
proof (induction f arbitrary: acc)
  case Nil
  then show ?case by simp
next
  case (Cons e f)
  obtain key v where e: "e = (key, v)" by (cases e)
  show ?case
  proof (cases "malformed_filter e")
    case True
    with Cons.prems have "filters_to_remove f (acc @ [key]) = Inr ks"
      by (auto simp: e malformed_filter_def split: if_splits sum.splits)
    moreover from True have "{x \<in> set (e # f). malformed_filter x}
        = insert e {x \<in> set f. malformed_filter x}"
      by auto
    ultimately show ?thesis
      using Cons.IH [of "acc @ [key]"] by (simp add: e)
  next
    case False
    with Cons.prems have "filters_to_remove f acc = Inr ks"
      by (auto simp: e malformed_filter_def split: if_splits sum.splits)
    moreover from False have "{x \<in> set (e # f). malformed_filter x}
        = {x \<in> set f. malformed_filter x}"
      by auto
    ultimately show ?thesis
      using Cons.IH [of acc] by simp
  qed
qed

lemma load_config_without_file:
  "arg_config_yml pa = None \<Longrightarrow> \<exists>cfg. load_config pa yml = Inr cfg"
proof -
  assume nofile: "arg_config_yml pa = None"
  let ?over = "apply_overrides (args_items pa) (DEFAULT_advertiser, DEFAULT_scanner)"
  have no_arg: "map_of (args_items pa) ''filters'' = None"
    by (simp add: args_items_def)
  have dflt: "map_of DEFAULT_scanner ''filters'' = Some (PDict [])"
    by (simp add: DEFAULT_scanner_def)
  have "map_of (snd ?over) ''filters'' = Some (PDict [])"
    using apply_overrides_lookup [OF distinct_args_items, of pa DEFAULT_advertiser
        DEFAULT_scanner "''filters''"]
    by (simp only: no_arg dflt option.case)
  then have "\<exists>scn'. remove_malformed (snd ?over) = Inr scn'"
    by (simp add: remove_malformed_def)
  with nofile show ?thesis
    by (auto simp: load_config_def split: prod.splits)
qed

text \<open>
  Claim C6, as the code has it. Whenever \<^verbatim>\<open>load_config\<close> returns, the scanner's filters
  are either null as a whole or a mapping in which no malformed entry is left: every key
  is an allowable filter, no value is null, and the value of every measurement filter has
  length two.
\<close>

theorem load_config_filters_clean:
  assumes "load_config pa yml = Inr cfg"
  shows "\<exists>scn. map_of cfg ''scanner'' = Some (PDict scn)
           \<and> (map_of scn ''filters'' = Some PNone
              \<or> (\<exists>filters. map_of scn ''filters'' = Some (PDict filters)
                    \<and> (\<forall>e \<in> set filters.
                          \<not> malformed_filter e
                          \<and> fst e \<in> set ALLOWABLE_FILTERS \<and> snd e \<noteq> PNone
                          \<and> (fst e \<in> set MEASUREMENT_FILTERS
                               \<longrightarrow> py_len (snd e) = Inr 2))))"
proof -
  from load_config_Inr [OF assms] obtain config scn before where
    rm: "remove_malformed before = Inr scn"
    and cfg: "cfg = dict_set ''scanner'' (PDict scn) config"
    by blast
  have sec: "map_of cfg ''scanner'' = Some (PDict scn)"
    by (simp add: cfg map_of_dict_set)
  from rm consider "map_of scn ''filters'' = Some PNone"
    | f ks where "filters_to_remove f [] = Inr ks"
        "map_of scn ''filters'' = Some (PDict (fold dict_del ks f))"
    by (auto simp: remove_malformed_def map_of_dict_set
        split: option.splits pyval.splits sum.splits)
  then show ?thesis
  proof cases
    case 1
    with sec show ?thesis by blast
  next
    case 2
    from filters_to_remove_marks [OF 2(1)]
    have "set ks = fst ` {e \<in> set f. malformed_filter e}"
      by simp
    then have "\<forall>e \<in> set (fold dict_del ks f). \<not> malformed_filter e"
      unfolding fold_dict_del by force
    then have "\<forall>e \<in> set (fold dict_del ks f).
                 \<not> malformed_filter e
                 \<and> fst e \<in> set ALLOWABLE_FILTERS \<and> snd e \<noteq> PNone
                 \<and> (fst e \<in> set MEASUREMENT_FILTERS \<longrightarrow> py_len (snd e) = Inr 2)"
      by (simp add: malformed_filter_def)
    with sec 2(2) show ?thesis by blast
  qed
qed

theorem load_config_filters_clean_witness:
  "load_config
     \<lparr>arg_advertiser = False, arg_scanner = True, arg_config_yml = Some ''config.yml'',
      arg_control_file = None, arg_scan_prefix = None, arg_timeout = None, arg_uuid = None,
      arg_major = None, arg_minor = None, arg_tx_power = None, arg_interval = None,
      arg_revisit = None\<rparr>
     (PDict [(''advertiser'', PDict []),
             (''scanner'', PDict [(''filters'',
                PDict [(''RSSI'', PList [PInt (-80)]), (''COLOUR'', PInt 2),
                       (''UUID'', PNone), (''MAJOR'', PInt 4)])])])
   = Inr [(''advertiser'', PDict DEFAULT_advertiser),
          (''scanner'', PDict
             [(''control_file'', PStr ''scanner_control''),
              (''scan_prefix'', PStr ''pi_pact_scan''),
              (''timeout'', PNone),
              (''revisit'', PInt 1),
              (''filters'', PDict [(''MAJOR'', PInt 4)])])]
   \<and> \<not> malformed_filter (''MAJOR'', PInt 4)"
proof -
  let ?pa = "\<lparr>arg_advertiser = False, arg_scanner = True, arg_config_yml = Some ''config.yml'',
      arg_control_file = None, arg_scan_prefix = None, arg_timeout = None, arg_uuid = None,
      arg_major = None, arg_minor = None, arg_tx_power = None, arg_interval = None,
      arg_revisit = None\<rparr>"
  let ?yml = "PDict [(''advertiser'', PDict []),
             (''scanner'', PDict [(''filters'',
                PDict [(''RSSI'', PList [PInt (-80)]), (''COLOUR'', PInt 2),
                       (''UUID'', PNone), (''MAJOR'', PInt 4)])])]"
  let ?scn = "[(''control_file'', PStr ''scanner_control''),
              (''scan_prefix'', PStr ''pi_pact_scan''),
              (''timeout'', PNone),
              (''revisit'', PInt 1),
              (''filters'', PDict [(''MAJOR'', PInt 4)])]"
  let ?cfg = "[(''advertiser'', PDict DEFAULT_advertiser), (''scanner'', PDict ?scn)]"
  have run: "load_config ?pa ?yml = Inr ?cfg"
    by (simp add: config_eval)
  from load_config_filters_clean [OF run]
  have "\<forall>e \<in> set [(''MAJOR'', PInt 4)]. \<not> malformed_filter e"
    by auto
  with run show ?thesis by simp
qed

text \<open>
  Claim C6 as stated fails: not every bad filter entry lets \<^verbatim>\<open>load_config\<close> return. The
  arity check takes \<^verbatim>\<open>len(value)\<close> of a measurement filter's value, and a value that has
  no length, such as the single number in \<^verbatim>\<open>RSSI: -60\<close>, makes \<^verbatim>\<open>load_config\<close> raise
  instead of dropping the entry.
\<close>

theorem load_config_scalar_filter_counterexample:
  "load_config
     \<lparr>arg_advertiser = False, arg_scanner = True, arg_config_yml = Some ''config.yml'',
      arg_control_file = None, arg_scan_prefix = None, arg_timeout = None, arg_uuid = None,
      arg_major = None, arg_minor = None, arg_tx_power = None, arg_interval = None,
      arg_revisit = None\<rparr>
     (PDict [(''advertiser'', PDict []),
             (''scanner'', PDict [(''filters'', PDict [(''RSSI'', PInt (-60))])])])
   = Inl (TypeError ''len'')"
  by (simp add: config_eval)

section \<open>Construction on the path of main\<close>


end
